theory Spec2Isabelle
  imports Main "HOL-Library.Word" "HOL-Library.Stream" "HOL-Library.Monad_Syntax"
begin

unbundle bit_operations_syntax

section \<open>The SD/MMC block driver of \<open>src/User/diskio.c\<close>\<close>

text \<open>
  The driver talks to the card through \<open>xchg_spi\<close> only, and its two timers are
  decremented by \<open>disk_timerproc\<close>, which the 1 kHz time base calls while the driver
  polls. Both are made explicit: the driver state carries the future of the bus, a
  stream with one entry per byte exchange holding the number of ticks that elapse
  during that exchange and the byte the card returns, and a log of everything the
  driver did on the bus. Any card (and any timing) is such a stream, so a statement
  for all streams is a statement for all cards.

  A polling loop that the source leaves only when the card answers or a timer runs out
  is a \<open>partial_function\<close> in the option monad: \<open>None\<close> is a run that never returns.
\<close>

subsection \<open>Types and constants\<close>

type_synonym byte = "8 word"
type_synonym dword = "32 word"

text \<open>What the driver does on the bus: an exchanged byte (sent, received), the
  chip-select line (\<open>CS_HIGH\<close>, \<open>CS_LOW\<close>) and the four hardware hooks, which are
  empty macros in this variant and leave only their mark in the log.\<close>

datatype hook = POWER_ON | POWER_OFF | FCLK_SLOW | FCLK_FAST

datatype event = Xchg byte byte | CS_HIGH | CS_LOW | Hook hook

datatype DRESULT = RES_OK | RES_ERROR | RES_WRPRT | RES_NOTRDY | RES_PARERR

text \<open>Modelled from the spec: \<open>diskio.h\<close>, which declares the status flags, the card
  type flags and the command indices, is not among the sources. The status byte is a
  bitmask of not-initialized, no-disk and write-protected; the card type is a bitmask
  of the three families and the block-addressing flag; a command is its 6-bit index,
  and an application command carries bit 7 (the bit \<open>send_cmd\<close> tests). The values
  are those of the FatFs distribution header.\<close>

definition STA_NOINIT :: byte where [simp]: "STA_NOINIT = 0x01"
definition STA_NODISK :: byte where [simp]: "STA_NODISK = 0x02"
definition STA_PROTECT :: byte where [simp]: "STA_PROTECT = 0x04"

definition CT_MMC :: byte where [simp]: "CT_MMC = 0x01"
definition CT_SD1 :: byte where [simp]: "CT_SD1 = 0x02"
definition CT_SD2 :: byte where [simp]: "CT_SD2 = 0x04"
definition CT_SDC :: byte where [simp]: "CT_SDC = CT_SD1 OR CT_SD2"
definition CT_BLOCK :: byte where [simp]: "CT_BLOCK = 0x08"

definition CMD0 :: byte where [simp]: "CMD0 = 0"
definition CMD1 :: byte where [simp]: "CMD1 = 1"
definition ACMD41 :: byte where [simp]: "ACMD41 = 0x80 + 41"
definition CMD8 :: byte where [simp]: "CMD8 = 8"
definition CMD9 :: byte where [simp]: "CMD9 = 9"
definition CMD10 :: byte where [simp]: "CMD10 = 10"
definition CMD12 :: byte where [simp]: "CMD12 = 12"
definition ACMD13 :: byte where [simp]: "ACMD13 = 0x80 + 13"
definition CMD16 :: byte where [simp]: "CMD16 = 16"
definition CMD17 :: byte where [simp]: "CMD17 = 17"
definition CMD18 :: byte where [simp]: "CMD18 = 18"
definition ACMD23 :: byte where [simp]: "ACMD23 = 0x80 + 23"
definition CMD24 :: byte where [simp]: "CMD24 = 24"
definition CMD25 :: byte where [simp]: "CMD25 = 25"
definition CMD55 :: byte where [simp]: "CMD55 = 55"
definition CMD58 :: byte where [simp]: "CMD58 = 58"

text \<open>\<open>#define MMC_WP 0\<close> and \<open>#define MMC_CD 1\<close>: the two socket lines are constants.\<close>

definition MMC_WP :: bool where [simp]: "MMC_WP = False"
definition MMC_CD :: bool where [simp]: "MMC_CD = True"

subsection \<open>The driver state\<close>

text \<open>\<open>Stat\<close>, \<open>Timer1\<close>, \<open>Timer2\<close> and \<open>CardType\<close> are the four globals of the file.
  The timers are \<open>UINT\<close>; the driver only stores 100, 500 and 1000 in them and the
  tick handler decrements them with a floor at zero, so they never wrap and are
  natural numbers here.\<close>

record drv =
  Stat :: byte
  Timer1 :: nat
  Timer2 :: nat
  CardType :: dword
  bus_in :: "(nat \<times> byte) stream"
  bus_log :: "event list"

text \<open>The initial values of the globals: \<open>Stat = STA_NOINIT\<close>, the rest zero.\<close>

definition power_up :: "(nat \<times> byte) stream \<Rightarrow> drv" where
  "power_up bus =
     \<lparr>Stat = STA_NOINIT, Timer1 = 0, Timer2 = 0, CardType = 0, bus_in = bus, bus_log = []\<rparr>"

definition emit :: "event \<Rightarrow> drv \<Rightarrow> drv" where
  "emit e s = s\<lparr>bus_log := bus_log s @ [e]\<rparr>"

subsection \<open>The tick handler\<close>

definition disk_timerproc :: "drv \<Rightarrow> drv" where
  "disk_timerproc s =
     (let n = Timer1 s;
          s1 = (if n \<noteq> 0 then s\<lparr>Timer1 := n - 1\<rparr> else s);
          n = Timer2 s1;
          s2 = (if n \<noteq> 0 then s1\<lparr>Timer2 := n - 1\<rparr> else s1);
          st = Stat s2;
          st1 = (if MMC_WP then st OR STA_PROTECT else st AND NOT STA_PROTECT);
          st2 = (if MMC_CD then st1 AND NOT STA_NODISK else st1 OR (STA_NODISK OR STA_NOINIT))
      in s2\<lparr>Stat := st2\<rparr>)"

subsection \<open>Transport primitives\<close>

text \<open>One byte exchange: the ticks that fall into it run the tick handler, then the
  card's byte is returned. The four busy-waits on the SPI status register are the
  hardware completing the transfer.\<close>

definition xchg_spi :: "byte \<Rightarrow> drv \<Rightarrow> byte \<times> drv" where
  "xchg_spi dat s =
     (let (t, b) = shd (bus_in s);
          s1 = (disk_timerproc ^^ t) s
      in (b, s1\<lparr>bus_in := stl (bus_in s), bus_log := bus_log s @ [Xchg dat b]\<rparr>))"

text \<open>The measure of the three counted \<open>do ... while\<close> loops: a counter that is not
  yet zero after its decrement is smaller after the next one.\<close>

lemma unat_pred_less: "(w :: 'a::len word) \<noteq> 1 \<Longrightarrow> unat (w - 2) < unat (w - 1)"
proof -
  assume "w \<noteq> 1"
  then have nz: "w - 1 \<noteq> 0" by simp
  then have "unat (w - 1 - 1) = unat (w - 1) - 1" by (rule unat_minus_one)
  moreover have "unat (w - 1) \<noteq> 0" using nz by (simp add: unat_eq_zero)
  ultimately show ?thesis by simp
qed

text \<open>\<open>do { xchg_spi(*buff++); } while (cnt -= 1);\<close> The buffer is the memory from the
  pointer on; \<open>cnt\<close> is a \<open>UINT\<close>, so a count of 0 wraps and runs \<open>2 ^ 32\<close> times.\<close>

function xmit_spi_multi :: "(nat \<Rightarrow> byte) \<Rightarrow> dword \<Rightarrow> drv \<Rightarrow> drv" where
  "xmit_spi_multi buff cnt s =
     (let (d, s1) = xchg_spi (buff 0) s;
          cnt1 = cnt - 1
      in if cnt1 \<noteq> 0 then xmit_spi_multi (\<lambda>i. buff (Suc i)) cnt1 s1 else s1)"
  by pat_completeness auto
termination
  by (relation "measure (\<lambda>(buff, cnt, s). unat (cnt - 1))") (auto simp: unat_pred_less)

text \<open>\<open>do { *buff++ = xchg_spi(0xff); } while (cnt -= 1);\<close> The result lists the bytes
  stored from \<open>buff\<close> on.\<close>

function rcvr_spi_multi :: "dword \<Rightarrow> drv \<Rightarrow> byte list \<times> drv" where
  "rcvr_spi_multi cnt s =
     (let (d, s1) = xchg_spi 0xFF s;
          cnt1 = cnt - 1
      in if cnt1 \<noteq> 0 then (let (ds, s2) = rcvr_spi_multi cnt1 s1 in (d # ds, s2))
         else ([d], s1))"
  by pat_completeness auto
termination
  by (relation "measure (\<lambda>(cnt, s). unat (cnt - 1))") (auto simp: unat_pred_less)

text \<open>The loops \<open>for (n = k; n; n--) xchg_spi(0xFF)\<close> and
  \<open>for (n = 0; n < k; n++) p[n] = xchg_spi(0xFF)\<close> with a constant \<open>k\<close>.\<close>

primrec rcvr_bytes :: "nat \<Rightarrow> drv \<Rightarrow> byte list \<times> drv" where
  "rcvr_bytes 0 s = ([], s)"
| "rcvr_bytes (Suc n) s =
     (let (d, s1) = xchg_spi 0xFF s;
          (ds, s2) = rcvr_bytes n s1
      in (d # ds, s2))"

definition skip_bytes :: "nat \<Rightarrow> drv \<Rightarrow> drv" where
  "skip_bytes n s = snd (rcvr_bytes n s)"

subsection \<open>Ready wait, select and deselect\<close>

text \<open>The loop of \<open>wait_ready\<close>: \<open>do { d = xchg_spi(0xFF); } while ((d != 0xFF) && Timer2);\<close>\<close>

partial_function (option) wait_loop :: "drv \<Rightarrow> (byte \<times> drv) option" where
  "wait_loop s =
     (let (d, s1) = xchg_spi 0xFF s
      in if d \<noteq> 0xFF \<and> Timer2 s1 \<noteq> 0 then wait_loop s1 else Some (d, s1))"

declare wait_loop.simps [code]

definition wait_ready :: "drv \<Rightarrow> (bool \<times> drv) option" where
  "wait_ready s = do {
     (d, s1) \<leftarrow> wait_loop (s\<lparr>Timer2 := 500\<rparr>);
     Some (d = 0xFF, s1) }"

definition mmc_deselect :: "drv \<Rightarrow> drv" where
  "mmc_deselect s = snd (xchg_spi 0xFF (emit CS_HIGH s))"

definition mmc_select :: "drv \<Rightarrow> (bool \<times> drv) option" where
  "mmc_select s = do {
     (rdy, s1) \<leftarrow> wait_ready (snd (xchg_spi 0xFF (emit CS_LOW s)));
     if rdy then Some (True, s1) else Some (False, mmc_deselect s1) }"

subsection \<open>Data blocks\<close>

text \<open>The token loop of \<open>rcvr_datablock\<close>:
  \<open>do { token = xchg_spi(0xFF); } while ((token == 0xFF) && Timer1);\<close>\<close>

partial_function (option) token_loop :: "drv \<Rightarrow> (byte \<times> drv) option" where
  "token_loop s =
     (let (token, s1) = xchg_spi 0xFF s
      in if token = 0xFF \<and> Timer1 s1 \<noteq> 0 then token_loop s1 else Some (token, s1))"

declare token_loop.simps [code]

text \<open>\<open>rcvr_datablock\<close> returns 0 (here \<open>None\<close>) and stores nothing, or returns 1 and
  has stored the block (here \<open>Some\<close> of the bytes stored).\<close>

definition rcvr_datablock :: "dword \<Rightarrow> drv \<Rightarrow> (byte list option \<times> drv) option" where
  "rcvr_datablock btr s = do {
     (token, s1) \<leftarrow> token_loop (s\<lparr>Timer1 := 100\<rparr>);
     if token \<noteq> 0xFE then Some (None, s1)
     else (let (blk, s2) = rcvr_spi_multi btr s1;
               s3 = snd (xchg_spi 0xFF s2);
               s4 = snd (xchg_spi 0xFF s3)
           in Some (Some blk, s4)) }"

definition xmit_datablock :: "(nat \<Rightarrow> byte) \<Rightarrow> byte \<Rightarrow> drv \<Rightarrow> (bool \<times> drv) option" where
  "xmit_datablock buff token s = do {
     (rdy, s1) \<leftarrow> wait_ready s;
     if \<not> rdy then Some (False, s1)
     else (let s2 = snd (xchg_spi token s1)
           in if token \<noteq> 0xFD then
                (let s3 = xmit_spi_multi buff 512 s2;
                     s4 = snd (xchg_spi 0xFF s3);
                     s5 = snd (xchg_spi 0xFF s4);
                     (resp, s6) = xchg_spi 0xFF s5
                 in if resp AND 0x1F \<noteq> 0x05 then Some (False, s6) else Some (True, s6))
              else Some (True, s2)) }"

subsection \<open>Commands\<close>

text \<open>\<open>n = 10; do { res = xchg_spi(0xFF); } while ((res & 0x80) && --n);\<close>\<close>

function resp_loop :: "byte \<Rightarrow> drv \<Rightarrow> byte \<times> drv" where
  "resp_loop n s =
     (let (res, s1) = xchg_spi 0xFF s
      in if res AND 0x80 \<noteq> 0 \<and> n - 1 \<noteq> 0 then resp_loop (n - 1) s1 else (res, s1))"
  by pat_completeness auto
termination
  by (relation "measure (\<lambda>(n, s). unat (n - 1))") (auto simp: unat_pred_less)

text \<open>\<open>send_cmd\<close> from the selection of the card on: what it does once the
  application-command prefix is dealt with and bit 7 is cleared.\<close>

definition send_frame :: "byte \<Rightarrow> dword \<Rightarrow> drv \<Rightarrow> (byte \<times> drv) option" where
  "send_frame cmd arg s = do {
     (sel, s1) \<leftarrow> (if cmd \<noteq> CMD12 then mmc_select (mmc_deselect s) else Some (True, s));
     if \<not> sel then Some (0xFF, s1)
     else (let s2 = snd (xchg_spi (0x40 OR cmd) s1);
               s3 = snd (xchg_spi (ucast (drop_bit 24 arg)) s2);
               s4 = snd (xchg_spi (ucast (drop_bit 16 arg)) s3);
               s5 = snd (xchg_spi (ucast (drop_bit 8 arg)) s4);
               s6 = snd (xchg_spi (ucast arg) s5);
               n = (if cmd = CMD8 then 0x87 else if cmd = CMD0 then 0x95 else 0x01);
               s7 = snd (xchg_spi n s6);
               s8 = (if cmd = CMD12 then snd (xchg_spi 0xFF s7) else s7)
           in Some (resp_loop 10 s8)) }"

function send_cmd :: "byte \<Rightarrow> dword \<Rightarrow> drv \<Rightarrow> (byte \<times> drv) option" where
  "send_cmd cmd arg s =
     (if cmd AND 0x80 \<noteq> 0 then
        (case send_cmd CMD55 0 s of
           None \<Rightarrow> None
         | Some (res, s1) \<Rightarrow>
             if 1 < res then Some (res, s1) else send_frame (cmd AND 0x7F) arg s1)
      else send_frame cmd arg s)"
  by pat_completeness auto
termination
  by (relation "measure (\<lambda>(cmd, arg, s). if cmd AND 0x80 \<noteq> 0 then 1 else 0)") auto

declare xmit_spi_multi.simps [simp del] rcvr_spi_multi.simps [simp del]
  resp_loop.simps [simp del] send_cmd.simps [simp del]

subsection \<open>Status and initialization\<close>

definition disk_status :: "byte \<Rightarrow> drv \<Rightarrow> byte" where
  "disk_status pdrv s = (if pdrv \<noteq> 0 then STA_NOINIT else Stat s)"

text \<open>\<open>while (Timer1 && send_cmd(cmd, arg));\<close>\<close>

partial_function (option) idle_wait :: "byte \<Rightarrow> dword \<Rightarrow> drv \<Rightarrow> drv option" where
  "idle_wait cmd arg s =
     (if Timer1 s \<noteq> 0 then do {
        (res, s1) \<leftarrow> send_cmd cmd arg s;
        if res \<noteq> 0 then idle_wait cmd arg s1 else Some s1 }
      else Some s)"

declare idle_wait.simps [code]

text \<open>The probe sequence of \<open>disk_initialize\<close>, from \<open>ty = 0\<close> to the value of \<open>ty\<close>
  that is stored in \<open>CardType\<close>.\<close>

definition probe_v2 :: "drv \<Rightarrow> (byte \<times> drv) option" where
  "probe_v2 s =
     (let (ocr, s1) = rcvr_bytes 4 s
      in if ocr ! 2 = 0x01 \<and> ocr ! 3 = 0xAA then do {
           s2 \<leftarrow> idle_wait ACMD41 0x40000000 s1;
           if Timer1 s2 \<noteq> 0 then do {
             (res, s3) \<leftarrow> send_cmd CMD58 0 s2;
             if res = 0 then
               (let (ocr, s4) = rcvr_bytes 4 s3
                in Some (if ocr ! 0 AND 0x40 \<noteq> 0 then CT_SD2 OR CT_BLOCK else CT_SD2, s4))
             else Some (0, s3) }
           else Some (0, s2) }
         else Some (0, s1))"

definition probe_v1 :: "drv \<Rightarrow> (byte \<times> drv) option" where
  "probe_v1 s = do {
     (res, s1) \<leftarrow> send_cmd ACMD41 0 s;
     let (ty, cmd) = (if res \<le> 1 then (CT_SD1, ACMD41) else (CT_MMC, CMD1));
     s2 \<leftarrow> idle_wait cmd 0 s1;
     if Timer1 s2 = 0 then Some (0, s2)
     else do {
       (res, s3) \<leftarrow> send_cmd CMD16 512 s2;
       Some (if res \<noteq> 0 then 0 else ty, s3) } }"

definition card_probe :: "drv \<Rightarrow> (byte \<times> drv) option" where
  "card_probe s = do {
     (res, s1) \<leftarrow> send_cmd CMD0 0 s;
     if res = 1 then do {
       (res, s2) \<leftarrow> send_cmd CMD8 0x1AA (s1\<lparr>Timer1 := 1000\<rparr>);
       if res = 1 then probe_v2 s2 else probe_v1 s2 }
     else Some (0, s1) }"

text \<open>The entry of \<open>disk_initialize\<close> up to the probe sequence: the power-on hook, the
  slow clock and ten filler bytes.\<close>

definition probe_start :: "drv \<Rightarrow> drv" where
  "probe_start s = skip_bytes 10 (emit (Hook FCLK_SLOW) (emit (Hook POWER_ON) s))"

text \<open>The exit of \<open>disk_initialize\<close> from \<open>CardType = ty\<close> on.\<close>

definition probe_exit :: "byte \<Rightarrow> drv \<Rightarrow> drv" where
  "probe_exit ty s =
     (let s1 = mmc_deselect (s\<lparr>CardType := ucast ty\<rparr>)
      in if ty \<noteq> 0 then emit (Hook FCLK_FAST) (s1\<lparr>Stat := Stat s1 AND NOT STA_NOINIT\<rparr>)
         else emit (Hook POWER_OFF) s1)"

definition disk_initialize :: "byte \<Rightarrow> drv \<Rightarrow> (byte \<times> drv) option" where
  "disk_initialize pdrv s =
     (if pdrv \<noteq> 0 then Some (STA_NOINIT, s)
      else if Stat s AND STA_NODISK \<noteq> 0 then Some (Stat s, s)
      else do {
        (ty, s1) \<leftarrow> card_probe (probe_start s);
        Some (Stat (probe_exit ty s1), probe_exit ty s1) })"

subsection \<open>Sector read and write\<close>

text \<open>\<open>if (!(CardType & CT_BLOCK)) sect *= 512;\<close> on the \<open>DWORD\<close> \<open>sect\<close>.\<close>

definition card_address :: "drv \<Rightarrow> dword \<Rightarrow> dword" where
  "card_address s sector = (if CardType s AND ucast CT_BLOCK = 0 then sector * 512 else sector)"

text \<open>\<open>do { if (!rcvr_datablock(buff, 512)) break; buff += 512; } while (--count);\<close>
  The result is the count left and the bytes stored from \<open>buff\<close> on.\<close>

partial_function (option) read_blocks :: "dword \<Rightarrow> drv \<Rightarrow> ((dword \<times> byte list) \<times> drv) option" where
  "read_blocks count s = do {
     (r, s1) \<leftarrow> rcvr_datablock 512 s;
     case r of
       None \<Rightarrow> Some ((count, []), s1)
     | Some blk \<Rightarrow>
         if count - 1 \<noteq> 0 then do {
           ((c, rest), s2) \<leftarrow> read_blocks (count - 1) s1;
           Some ((c, blk @ rest), s2) }
         else Some ((count - 1, blk), s1) }"

declare read_blocks.simps [code]

text \<open>The two branches of \<open>disk_read\<close>, from the command to the count that is left
  (zero when every block arrived) and the bytes stored.\<close>

definition read_single :: "dword \<Rightarrow> drv \<Rightarrow> ((dword \<times> byte list) \<times> drv) option" where
  "read_single sect s = do {
     (res, s1) \<leftarrow> send_cmd CMD17 sect s;
     if res = 0 then do {
       (r, s2) \<leftarrow> rcvr_datablock 512 s1;
       Some (case r of None \<Rightarrow> (1, []) | Some blk \<Rightarrow> (0, blk), s2) }
     else Some ((1, []), s1) }"

definition read_multi :: "dword \<Rightarrow> dword \<Rightarrow> drv \<Rightarrow> ((dword \<times> byte list) \<times> drv) option" where
  "read_multi sect count s = do {
     (res, s1) \<leftarrow> send_cmd CMD18 sect s;
     if res = 0 then do {
       (r, s2) \<leftarrow> read_blocks count s1;
       (res12, s3) \<leftarrow> send_cmd CMD12 0 s2;
       Some (r, s3) }
     else Some ((count, []), s1) }"

definition disk_read :: "byte \<Rightarrow> dword \<Rightarrow> dword \<Rightarrow> drv \<Rightarrow> ((DRESULT \<times> byte list) \<times> drv) option" where
  "disk_read pdrv sector count s =
     (if pdrv \<noteq> 0 \<or> count = 0 then Some ((RES_PARERR, []), s)
      else if Stat s AND STA_NOINIT \<noteq> 0 then Some ((RES_NOTRDY, []), s)
      else do {
        ((c, data), s1) \<leftarrow>
          (if count = 1 then read_single (card_address s sector) s
           else read_multi (card_address s sector) count s);
        Some ((if c \<noteq> 0 then RES_ERROR else RES_OK, data), mmc_deselect s1) })"

text \<open>\<open>do { if (!xmit_datablock(buff, 0xFC)) break; buff += 512; } while (--count);\<close>
  The result is the count left.\<close>

partial_function (option) write_blocks :: "(nat \<Rightarrow> byte) \<Rightarrow> dword \<Rightarrow> drv \<Rightarrow> (dword \<times> drv) option" where
  "write_blocks buff count s = do {
     (ok, s1) \<leftarrow> xmit_datablock buff 0xFC s;
     if \<not> ok then Some (count, s1)
     else if count - 1 \<noteq> 0 then write_blocks (\<lambda>i. buff (i + 512)) (count - 1) s1
     else Some (count - 1, s1) }"

declare write_blocks.simps [code]

text \<open>\<open>if (CardType & CT_SDC) send_cmd(ACMD23, count);\<close> The response is dropped.\<close>

definition pre_erase :: "dword \<Rightarrow> drv \<Rightarrow> drv option" where
  "pre_erase count s =
     (if CardType s AND ucast CT_SDC \<noteq> 0 then map_option snd (send_cmd ACMD23 count s)
      else Some s)"

text \<open>The two branches of \<open>disk_write\<close>, from the command to the count that is left.
  The stop token is sent with a null buffer, which \<open>xmit_datablock\<close> does not read for
  this token.\<close>

definition write_single :: "(nat \<Rightarrow> byte) \<Rightarrow> dword \<Rightarrow> drv \<Rightarrow> (dword \<times> drv) option" where
  "write_single buff sect s = do {
     (res, s1) \<leftarrow> send_cmd CMD24 sect s;
     if res = 0 then do {
       (ok, s2) \<leftarrow> xmit_datablock buff 0xFE s1;
       Some (if ok then 0 else 1, s2) }
     else Some (1, s1) }"

definition write_multi :: "(nat \<Rightarrow> byte) \<Rightarrow> dword \<Rightarrow> dword \<Rightarrow> drv \<Rightarrow> (dword \<times> drv) option" where
  "write_multi buff sect count s = do {
     s1 \<leftarrow> pre_erase count s;
     (res, s2) \<leftarrow> send_cmd CMD25 sect s1;
     if res = 0 then do {
       (c, s3) \<leftarrow> write_blocks buff count s2;
       (ok, s4) \<leftarrow> xmit_datablock (\<lambda>i. 0) 0xFD s3;
       Some (if ok then c else 1, s4) }
     else Some (count, s2) }"

definition disk_write :: "byte \<Rightarrow> (nat \<Rightarrow> byte) \<Rightarrow> dword \<Rightarrow> dword \<Rightarrow> drv \<Rightarrow> (DRESULT \<times> drv) option" where
  "disk_write pdrv buff sector count s =
     (if pdrv \<noteq> 0 \<or> count = 0 then Some (RES_PARERR, s)
      else if Stat s AND STA_NOINIT \<noteq> 0 then Some (RES_NOTRDY, s)
      else if Stat s AND STA_PROTECT \<noteq> 0 then Some (RES_WRPRT, s)
      else do {
        (c, s1) \<leftarrow>
          (if count = 1 then write_single buff (card_address s sector) s
           else write_multi buff (card_address s sector) count s);
        Some (if c \<noteq> 0 then RES_ERROR else RES_OK, mmc_deselect s1) })"

subsection \<open>Control operations\<close>

text \<open>Modelled from the spec: the numbers of the control codes are declared in
  \<open>diskio.h\<close>, which is not among the sources; the eight codes of the \<open>switch\<close> are the
  constructors, and \<open>Other_ctrl\<close> is any other code.\<close>

datatype ctrl =
  CTRL_SYNC | GET_SECTOR_COUNT | GET_BLOCK_SIZE | MMC_GET_TYPE | MMC_GET_CSD | MMC_GET_CID
  | MMC_GET_OCR | MMC_GET_SDSTAT | Other_ctrl byte

text \<open>What \<open>disk_ioctl\<close> stores through \<open>buff\<close>: nothing, an \<open>LBA_t\<close>, a \<open>DWORD\<close>, one
  byte or a block of bytes. The value stored as \<open>LBA_t\<close> is computed in a \<open>DWORD\<close>.\<close>

datatype ioctl_data = No_data | Lba dword | Dword dword | Byte byte | Bytes "byte list"

text \<open>A shift by a negative amount has no defined result in C.\<close>

datatype fault = Negative_shift

text \<open>The sector count of a CSD register (the body of \<open>case GET_SECTOR_COUNT\<close>). The
  sums are computed in \<open>int\<close> and \<open>DWORD\<close>, 32 bits wide; \<open>n\<close> is a \<open>BYTE\<close>.\<close>

definition csd_sectors :: "byte list \<Rightarrow> fault + dword" where
  "csd_sectors csd =
     (if drop_bit 6 (csd ! 0) = 1 then
        (let csz = ucast (csd ! 9) + push_bit 8 (ucast (csd ! 8))
                   + push_bit 16 (ucast (csd ! 7 AND 63)) + (1 :: dword)
         in Inr (push_bit 10 csz))
      else
        (let n = (ucast (ucast (csd ! 5 AND 15) + drop_bit 7 (ucast (csd ! 10 AND 128))
                   + push_bit 1 (ucast (csd ! 9 AND 3)) + (2 :: dword)) :: byte);
             csz = ucast (drop_bit 6 (csd ! 8)) + push_bit 2 (ucast (csd ! 7))
                   + push_bit 10 (ucast (csd ! 6 AND 3)) + (1 :: dword)
         in if n < 9 then Inl Negative_shift else Inr (push_bit (unat n - 9) csz)))"

text \<open>The erase block size of an SDv1 and of an MMCv3 card, from the CSD.\<close>

definition csd_block_size_sd1 :: "byte list \<Rightarrow> fault + dword" where
  "csd_block_size_sd1 csd =
     (if drop_bit 6 (csd ! 13) = 0 then Inl Negative_shift
      else Inr (push_bit (unat (drop_bit 6 (csd ! 13)) - 1)
                 (push_bit 1 (ucast (csd ! 10 AND 63)) + drop_bit 7 (ucast (csd ! 11 AND 128))
                  + (1 :: dword))))"

definition csd_block_size_mmc :: "byte list \<Rightarrow> dword" where
  "csd_block_size_mmc csd =
     (ucast (drop_bit 2 (csd ! 10 AND 124)) + 1)
     * (push_bit 3 (ucast (csd ! 11 AND 3)) + drop_bit 5 (ucast (csd ! 11 AND 224)) + 1)"

text \<open>\<open>(send_cmd(cmd, 0) == 0) && rcvr_datablock(buf, btr)\<close>\<close>

definition read_register :: "byte \<Rightarrow> dword \<Rightarrow> drv \<Rightarrow> (byte list option \<times> drv) option" where
  "read_register cmd btr s = do {
     (res, s1) \<leftarrow> send_cmd cmd 0 s;
     if res = 0 then rcvr_datablock btr s1 else Some (None, s1) }"

text \<open>\<open>send_cmd(ACMD13, 0) == 0\<close>, then one byte skipped and \<open>rcvr_datablock(buf, btr)\<close>.\<close>

definition read_sd_status :: "dword \<Rightarrow> drv \<Rightarrow> (byte list option \<times> drv) option" where
  "read_sd_status btr s = do {
     (res, s1) \<leftarrow> send_cmd ACMD13 0 s;
     if res = 0 then rcvr_datablock btr (snd (xchg_spi 0xFF s1)) else Some (None, s1) }"

text \<open>The \<open>switch\<close> of \<open>disk_ioctl\<close>: the result code and what was stored, or the fault
  at which the run stops being defined.\<close>

definition ioctl_switch :: "ctrl \<Rightarrow> drv \<Rightarrow> ((fault + DRESULT \<times> ioctl_data) \<times> drv) option" where
  "ioctl_switch cmd s =
     (case cmd of
        CTRL_SYNC \<Rightarrow> do {
          (sel, s1) \<leftarrow> mmc_select s;
          Some (Inr (if sel then RES_OK else RES_ERROR, No_data), s1) }
      | GET_SECTOR_COUNT \<Rightarrow> do {
          (r, s1) \<leftarrow> read_register CMD9 16 s;
          case r of
            None \<Rightarrow> Some (Inr (RES_ERROR, No_data), s1)
          | Some csd \<Rightarrow>
              (case csd_sectors csd of
                 Inl f \<Rightarrow> Some (Inl f, s1)
               | Inr n \<Rightarrow> Some (Inr (RES_OK, Lba n), s1)) }
      | GET_BLOCK_SIZE \<Rightarrow>
          if CardType s AND ucast CT_SD2 \<noteq> 0 then do {
            (r, s1) \<leftarrow> read_sd_status 16 s;
            case r of
              None \<Rightarrow> Some (Inr (RES_ERROR, No_data), s1)
            | Some csd \<Rightarrow>
                Some (Inr (RES_OK, Dword (push_bit (unat (drop_bit 4 (csd ! 10))) 16)),
                      skip_bytes 48 s1) }
          else do {
            (r, s1) \<leftarrow> read_register CMD9 16 s;
            case r of
              None \<Rightarrow> Some (Inr (RES_ERROR, No_data), s1)
            | Some csd \<Rightarrow>
                if CardType s AND ucast CT_SD1 \<noteq> 0 then
                  (case csd_block_size_sd1 csd of
                     Inl f \<Rightarrow> Some (Inl f, s1)
                   | Inr n \<Rightarrow> Some (Inr (RES_OK, Dword n), s1))
                else Some (Inr (RES_OK, Dword (csd_block_size_mmc csd)), s1) }
      | MMC_GET_TYPE \<Rightarrow> Some (Inr (RES_OK, Byte (ucast (CardType s))), s)
      | MMC_GET_CSD \<Rightarrow> do {
          (r, s1) \<leftarrow> read_register CMD9 16 s;
          Some (Inr (case r of None \<Rightarrow> (RES_ERROR, No_data) | Some d \<Rightarrow> (RES_OK, Bytes d)), s1) }
      | MMC_GET_CID \<Rightarrow> do {
          (r, s1) \<leftarrow> read_register CMD10 16 s;
          Some (Inr (case r of None \<Rightarrow> (RES_ERROR, No_data) | Some d \<Rightarrow> (RES_OK, Bytes d)), s1) }
      | MMC_GET_OCR \<Rightarrow> do {
          (res, s1) \<leftarrow> send_cmd CMD58 0 s;
          if res = 0 then (let (d, s2) = rcvr_bytes 4 s1 in Some (Inr (RES_OK, Bytes d), s2))
          else Some (Inr (RES_ERROR, No_data), s1) }
      | MMC_GET_SDSTAT \<Rightarrow>
          if CardType s AND ucast CT_SD2 \<noteq> 0 then do {
            (r, s1) \<leftarrow> read_sd_status 64 s;
            Some (Inr (case r of None \<Rightarrow> (RES_ERROR, No_data) | Some d \<Rightarrow> (RES_OK, Bytes d)), s1) }
          else Some (Inr (RES_ERROR, No_data), s)
      | Other_ctrl c \<Rightarrow> Some (Inr (RES_PARERR, No_data), s))"

definition disk_ioctl :: "byte \<Rightarrow> ctrl \<Rightarrow> drv \<Rightarrow> ((fault + DRESULT \<times> ioctl_data) \<times> drv) option" where
  "disk_ioctl pdrv cmd s =
     (if pdrv \<noteq> 0 then Some (Inr (RES_PARERR, No_data), s)
      else if Stat s AND STA_NOINIT \<noteq> 0 then Some (Inr (RES_NOTRDY, No_data), s)
      else do {
        (r, s1) \<leftarrow> ioctl_switch cmd s;
        case r of
          Inl f \<Rightarrow> Some (Inl f, s1)
        | Inr v \<Rightarrow> Some (Inr v, mmc_deselect s1) })"

section \<open>Properties\<close>

subsection \<open>Ticks and byte exchanges\<close>

text \<open>In this variant a tick clears the two socket flags and decrements both timers,
  stopping at zero.\<close>

lemma disk_timerproc_eq:
  "disk_timerproc s =
     s\<lparr>Stat := Stat s AND NOT 6, Timer1 := Timer1 s - 1, Timer2 := Timer2 s - 1\<rparr>"
  by (cases s) (simp add: disk_timerproc_def Let_def and.assoc)

lemma ticks_eq:
  "(disk_timerproc ^^ t) s =
     s\<lparr>Stat := (if t = 0 then Stat s else Stat s AND NOT 6),
       Timer1 := Timer1 s - t, Timer2 := Timer2 s - t\<rparr>"
proof (induction t)
  case 0
  show ?case by simp
next
  case (Suc t)
  have "(disk_timerproc ^^ Suc t) s = disk_timerproc ((disk_timerproc ^^ t) s)"
    by simp
  also have "\<dots> = s\<lparr>Stat := Stat s AND NOT 6, Timer1 := Timer1 s - Suc t, Timer2 := Timer2 s - Suc t\<rparr>"
    unfolding Suc by (simp add: disk_timerproc_eq and.assoc)
  finally show ?case by simp
qed

lemma xchg_spi_eq:
  "xchg_spi dat s =
     (snd (shd (bus_in s)),
      s\<lparr>Stat := (if fst (shd (bus_in s)) = 0 then Stat s else Stat s AND NOT 6),
        Timer1 := Timer1 s - fst (shd (bus_in s)),
        Timer2 := Timer2 s - fst (shd (bus_in s)),
        bus_in := stl (bus_in s),
        bus_log := bus_log s @ [Xchg dat (snd (shd (bus_in s)))]\<rparr>)"
  by (simp add: xchg_spi_def ticks_eq split_beta)

text \<open>\<open>elapsed\<close> is the number of ticks that fall into a run of exchanges, and \<open>sends\<close>
  is the state after exchanging the given bytes one after the other.\<close>

definition elapsed :: "(nat \<times> byte) list \<Rightarrow> nat" where
  "elapsed evs = sum_list (map fst evs)"

definition sends :: "byte list \<Rightarrow> drv \<Rightarrow> drv" where
  "sends ds s = fold (\<lambda>d s. snd (xchg_spi d s)) ds s"

lemma elapsed_simps [simp]:
  "elapsed [] = 0" "elapsed (e # evs) = fst e + elapsed evs"
  "elapsed (evs @ evs') = elapsed evs + elapsed evs'"
  by (simp_all add: elapsed_def)

lemma sends_simps [simp]:
  "sends [] s = s" "sends (d # ds) s = sends ds (snd (xchg_spi d s))"
  "sends (ds @ ds') s = sends ds' (sends ds s)"
  by (simp_all add: sends_def)

lemma xchg_fields [simp]:
  "fst (xchg_spi dat s) = snd (shd (bus_in s))"
  "bus_in (snd (xchg_spi dat s)) = stl (bus_in s)"
  "bus_log (snd (xchg_spi dat s)) = bus_log s @ [Xchg dat (snd (shd (bus_in s)))]"
  "Timer1 (snd (xchg_spi dat s)) = Timer1 s - fst (shd (bus_in s))"
  "Timer2 (snd (xchg_spi dat s)) = Timer2 s - fst (shd (bus_in s))"
  "CardType (snd (xchg_spi dat s)) = CardType s"
  "Stat (snd (xchg_spi dat s)) = (if fst (shd (bus_in s)) = 0 then Stat s else Stat s AND NOT 6)"
  by (simp_all add: xchg_spi_eq)

lemma sends_bus_in [simp]: "bus_in (sends ds s) = sdrop (length ds) (bus_in s)"
  by (induction ds arbitrary: s) simp_all

lemma sends_CardType [simp]: "CardType (sends ds s) = CardType s"
  by (induction ds arbitrary: s) simp_all

lemma sends_Timer1 [simp]:
  "Timer1 (sends ds s) = Timer1 s - elapsed (stake (length ds) (bus_in s))"
  by (induction ds arbitrary: s) simp_all

lemma sends_Timer2 [simp]:
  "Timer2 (sends ds s) = Timer2 s - elapsed (stake (length ds) (bus_in s))"
  by (induction ds arbitrary: s) simp_all

lemma sends_bus_log [simp]:
  "bus_log (sends ds s) =
     bus_log s @ map2 Xchg ds (map snd (stake (length ds) (bus_in s)))"
  by (induction ds arbitrary: s) simp_all

lemma sends_Stat [simp]:
  "Stat (sends ds s) =
     (if elapsed (stake (length ds) (bus_in s)) = 0 then Stat s else Stat s AND NOT 6)"
  by (induction ds arbitrary: s) (simp_all add: and.assoc)

subsection \<open>The ready wait\<close>

lemma wait_loop_polls:
  assumes "\<forall>e\<in>set (stake k (bus_in s)). snd e \<noteq> 0xFF"
    and "elapsed (stake k (bus_in s)) < Timer2 s"
    and "snd (bus_in s !! k) = 0xFF \<or> Timer2 s \<le> elapsed (stake (Suc k) (bus_in s))"
  shows "wait_loop s = Some (snd (bus_in s !! k), sends (replicate (Suc k) 0xFF) s)"
  using assms
proof (induction k arbitrary: s)
  case 0
  then show ?case
    by (subst wait_loop.simps) (auto simp: split_beta)
next
  case (Suc k)
  let ?s1 = "snd (xchg_spi 0xFF s)"
  have "wait_loop ?s1 = Some (snd (bus_in ?s1 !! k), sends (replicate (Suc k) 0xFF) ?s1)"
    using Suc.prems by (intro Suc.IH) auto
  moreover have "snd (shd (bus_in s)) \<noteq> 0xFF" "Timer2 ?s1 \<noteq> 0"
    using Suc.prems by auto
  ultimately show ?case
    by (subst wait_loop.simps) (simp add: split_beta)
qed


lemma wait_loop_stuck:
  assumes "wait_loop s = Some y"
  shows "\<not> ((\<forall>e\<in>sset (bus_in s). snd e \<noteq> 0xFF) \<and> (\<forall>k. elapsed (stake k (bus_in s)) < Timer2 s))"
  using assms
proof (induction rule: wait_loop.raw_induct [rotated 1, consumes 1])
  case (1 f s y)
  show ?case
  proof
    assume stuck: "(\<forall>e\<in>sset (bus_in s). snd e \<noteq> 0xFF) \<and> (\<forall>k. elapsed (stake k (bus_in s)) < Timer2 s)"
    let ?s1 = "snd (xchg_spi 0xFF s)"
    have busy: "snd (shd (bus_in s)) \<noteq> 0xFF"
      using stuck by (simp add: shd_sset)
    have lt: "fst (shd (bus_in s)) + elapsed (stake k (stl (bus_in s))) < Timer2 s" for k
      using stuck [THEN conjunct2, rule_format, of "Suc k"] by simp
    from lt [of 0] have "Timer2 ?s1 \<noteq> 0" by simp
    with busy 1(2) have "f ?s1 = Some y"
      by (simp add: split_beta Let_def)
    then have "\<not> ((\<forall>e\<in>sset (bus_in ?s1). snd e \<noteq> 0xFF) \<and> (\<forall>k. elapsed (stake k (bus_in ?s1)) < Timer2 ?s1))"
      by (rule 1(1))
    moreover have "\<forall>e\<in>sset (bus_in ?s1). snd e \<noteq> 0xFF"
      using stuck by (auto dest: stl_sset)
    moreover have "elapsed (stake k (bus_in ?s1)) < Timer2 ?s1" for k
      using lt [of k] by simp
    ultimately show False by blast
  qed
qed

text \<open>
  C3. \<open>wait_ready\<close> arms \<open>Timer2\<close> to 500 and exchanges the filler byte \<open>0xFF\<close> until
  the card returns \<open>0xFF\<close> or the timer has reached zero. If the card returns \<open>0xFF\<close>
  at exchange \<open>k\<close>, fewer than 500 ticks having elapsed before it, the result is
  success after \<open>k + 1\<close> exchanges. If the card does not return \<open>0xFF\<close>, the result is
  failure exactly at the exchange during which the 500th tick falls: after \<open>k + 1\<close>
  exchanges when fewer than 500 ticks elapse during the first \<open>k\<close> and at least 500
  during the first \<open>k + 1\<close>, with the timer at zero. While the card is never ready and
  the ticks never add up to 500, the loop does not return.
\<close>

theorem wait_ready_budget:
  "((\<forall>e\<in>set (stake k (bus_in s)). snd e \<noteq> 0xFF) \<and> elapsed (stake k (bus_in s)) < 500
      \<and> snd (bus_in s !! k) = 0xFF
    \<longrightarrow> wait_ready s = Some (True, sends (replicate (Suc k) 0xFF) (s\<lparr>Timer2 := 500\<rparr>)))
   \<and> ((\<forall>e\<in>set (stake (Suc k) (bus_in s)). snd e \<noteq> 0xFF) \<and> elapsed (stake k (bus_in s)) < 500
      \<and> 500 \<le> elapsed (stake (Suc k) (bus_in s))
    \<longrightarrow> wait_ready s = Some (False, sends (replicate (Suc k) 0xFF) (s\<lparr>Timer2 := 500\<rparr>))
        \<and> Timer2 (sends (replicate (Suc k) 0xFF) (s\<lparr>Timer2 := 500\<rparr>)) = 0)
   \<and> ((\<forall>e\<in>sset (bus_in s). snd e \<noteq> 0xFF) \<and> (\<forall>j. elapsed (stake j (bus_in s)) < 500)
    \<longrightarrow> wait_ready s = None)"
proof (intro conjI impI)
  assume a: "(\<forall>e\<in>set (stake k (bus_in s)). snd e \<noteq> 0xFF) \<and> elapsed (stake k (bus_in s)) < 500
      \<and> snd (bus_in s !! k) = 0xFF"
  then have "wait_loop (s\<lparr>Timer2 := 500\<rparr>)
      = Some (snd (bus_in (s\<lparr>Timer2 := 500\<rparr>) !! k), sends (replicate (Suc k) 0xFF) (s\<lparr>Timer2 := 500\<rparr>))"
    by (intro wait_loop_polls) simp_all
  with a show "wait_ready s = Some (True, sends (replicate (Suc k) 0xFF) (s\<lparr>Timer2 := 500\<rparr>))"
    by (simp add: wait_ready_def)
next
  assume a: "(\<forall>e\<in>set (stake (Suc k) (bus_in s)). snd e \<noteq> 0xFF) \<and> elapsed (stake k (bus_in s)) < 500
      \<and> 500 \<le> elapsed (stake (Suc k) (bus_in s))"
  then have "wait_loop (s\<lparr>Timer2 := 500\<rparr>)
      = Some (snd (bus_in (s\<lparr>Timer2 := 500\<rparr>) !! k), sends (replicate (Suc k) 0xFF) (s\<lparr>Timer2 := 500\<rparr>))"
    by (intro wait_loop_polls) (simp_all del: stake.simps(2) add: stake_Suc)
  moreover have "snd (bus_in s !! k) \<noteq> 0xFF"
    using a by (simp del: stake.simps(2) add: stake_Suc)
  ultimately show "wait_ready s = Some (False, sends (replicate (Suc k) 0xFF) (s\<lparr>Timer2 := 500\<rparr>))"
    by (simp add: wait_ready_def)
  show "Timer2 (sends (replicate (Suc k) 0xFF) (s\<lparr>Timer2 := 500\<rparr>)) = 0"
    using a by simp
next
  assume a: "(\<forall>e\<in>sset (bus_in s). snd e \<noteq> 0xFF) \<and> (\<forall>j. elapsed (stake j (bus_in s)) < 500)"
  have "wait_loop (s\<lparr>Timer2 := 500\<rparr>) = None"
  proof (cases "wait_loop (s\<lparr>Timer2 := 500\<rparr>)")
    case (Some y)
    from wait_loop_stuck [OF this] a show ?thesis by simp
  qed simp
  then show "wait_ready s = None"
    by (simp add: wait_ready_def)
qed


lemma elapsed_replicate [simp]: "elapsed (replicate n e) = n * fst e"
  by (induction n) simp_all

theorem wait_ready_budget_witness:
  "wait_ready (power_up (sconst (1, 0x00)))
     = Some (False, sends (replicate 500 0xFF) (power_up (sconst (1, 0x00))\<lparr>Timer2 := 500\<rparr>))
   \<and> Timer2 (sends (replicate 500 0xFF) (power_up (sconst (1, 0x00))\<lparr>Timer2 := 500\<rparr>)) = 0
   \<and> wait_ready (power_up ((7, 0x00) ## (7, 0x00) ## sconst (7, 0xFF)))
     = Some (True, sends [0xFF, 0xFF, 0xFF] (power_up ((7, 0x00) ## (7, 0x00) ## sconst (7, 0xFF))\<lparr>Timer2 := 500\<rparr>))
   \<and> wait_ready (power_up (sconst (0, 0x00))) = None"
proof -
  let ?busy = "power_up (sconst (1, 0x00))"
  have st: "stake n (bus_in ?busy) = replicate n (1, 0x00)" for n
    by (simp add: power_up_def map_replicate_const)
  have "(\<forall>e\<in>set (stake (Suc 499) (bus_in ?busy)). snd e \<noteq> 0xFF)
      \<and> elapsed (stake 499 (bus_in ?busy)) < 500 \<and> 500 \<le> elapsed (stake (Suc 499) (bus_in ?busy))"
    unfolding st by simp
  with wait_ready_budget [of 499 ?busy]
  have a: "wait_ready ?busy = Some (False, sends (replicate 500 0xFF) (?busy\<lparr>Timer2 := 500\<rparr>))
      \<and> Timer2 (sends (replicate 500 0xFF) (?busy\<lparr>Timer2 := 500\<rparr>)) = 0"
    by simp
  let ?late = "power_up ((7, 0x00) ## (7, 0x00) ## sconst (7, 0xFF))"
  have "(\<forall>e\<in>set (stake (Suc (Suc 0)) (bus_in ?late)). snd e \<noteq> 0xFF)
      \<and> elapsed (stake (Suc (Suc 0)) (bus_in ?late)) < 500 \<and> snd (bus_in ?late !! Suc (Suc 0)) = 0xFF"
    by (simp add: power_up_def)
  with wait_ready_budget [of "Suc (Suc 0)" ?late]
  have b: "wait_ready ?late = Some (True, sends [0xFF, 0xFF, 0xFF] (?late\<lparr>Timer2 := 500\<rparr>))"
    by simp
  let ?still = "power_up (sconst (0, 0x00))"
  have "(\<forall>e\<in>sset (bus_in ?still). snd e \<noteq> 0xFF) \<and> (\<forall>j. elapsed (stake j (bus_in ?still)) < 500)"
    by (simp add: power_up_def map_replicate_const)
  with wait_ready_budget [of 0 ?still]
  have c: "wait_ready ?still = None"
    by simp
  from a b c show ?thesis by simp
qed

subsection \<open>Counted loops\<close>

text \<open>The number of rounds of a \<open>do ... while (cnt -= 1)\<close> loop: a count of 0 wraps.\<close>

definition burst_len :: "dword \<Rightarrow> nat" where
  "burst_len cnt = (if cnt = 0 then 2 ^ 32 else unat cnt)"

lemma burst_len_step: "cnt - 1 \<noteq> 0 \<Longrightarrow> burst_len cnt = Suc (burst_len (cnt - 1))"
proof (cases "cnt = 0")
  case True
  then show ?thesis by (simp add: burst_len_def unsigned_minus_1_eq_mask mask_eq_exp_minus_1)
next
  case False
  assume "cnt - 1 \<noteq> 0"
  moreover from False have "unat (cnt - 1) = unat cnt - 1" by (rule unat_minus_one)
  moreover from False have "unat cnt \<noteq> 0" by (simp add: unat_eq_zero)
  ultimately show ?thesis using False by (simp add: burst_len_def)
qed

lemma burst_len_one: "cnt - 1 = 0 \<Longrightarrow> burst_len cnt = 1"
  by (simp add: burst_len_def)

lemma burst_len_numeral [simp]: "burst_len 512 = 512" "burst_len 16 = 16" "burst_len 64 = 64"
  by (simp_all add: burst_len_def)

lemma xmit_spi_multi_eq:
  "xmit_spi_multi buff cnt s = sends (map buff [0..<burst_len cnt]) s"
proof (induction buff cnt s rule: xmit_spi_multi.induct)
  case (1 buff cnt s)
  show ?case
  proof (cases "cnt - 1 = 0")
    case True
    then show ?thesis
      by (subst xmit_spi_multi.simps) (simp add: burst_len_one split_beta)
  next
    case False
    have "xmit_spi_multi (\<lambda>i. buff (Suc i)) (cnt - 1) (snd (xchg_spi (buff 0) s))
        = sends (map (\<lambda>i. buff (Suc i)) [0..<burst_len (cnt - 1)]) (snd (xchg_spi (buff 0) s))"
      using False by (intro "1.IH") (auto simp: prod_eq_iff)
    with False show ?thesis
      by (subst xmit_spi_multi.simps)
        (simp add: burst_len_step split_beta map_upt_Suc del: upt_Suc)
  qed
qed

lemma rcvr_spi_multi_eq:
  "rcvr_spi_multi cnt s
     = (map snd (stake (burst_len cnt) (bus_in s)), sends (replicate (burst_len cnt) 0xFF) s)"
proof (induction cnt s rule: rcvr_spi_multi.induct)
  case (1 cnt s)
  show ?case
  proof (cases "cnt - 1 = 0")
    case True
    then show ?thesis
      by (subst rcvr_spi_multi.simps) (simp add: burst_len_one split_beta)
  next
    case False
    have "rcvr_spi_multi (cnt - 1) (snd (xchg_spi 0xFF s))
        = (map snd (stake (burst_len (cnt - 1)) (bus_in (snd (xchg_spi 0xFF s)))),
           sends (replicate (burst_len (cnt - 1)) 0xFF) (snd (xchg_spi 0xFF s)))"
      using False by (intro "1.IH") (auto simp: prod_eq_iff)
    with False show ?thesis
      by (subst rcvr_spi_multi.simps) (simp add: burst_len_step split_beta Let_def)
  qed
qed

lemma rcvr_bytes_eq:
  "rcvr_bytes n s = (map snd (stake n (bus_in s)), sends (replicate n 0xFF) s)"
  by (induction n arbitrary: s) (simp_all add: split_beta)

lemma skip_bytes_eq: "skip_bytes n s = sends (replicate n 0xFF) s"
  by (simp add: skip_bytes_def rcvr_bytes_eq)

lemma resp_loop_sends:
  "\<exists>j. resp_loop n s = (snd (bus_in s !! j), sends (replicate (Suc j) 0xFF) s)"
proof (induction n s rule: resp_loop.induct)
  case (1 n s)
  show ?case
  proof (cases "snd (shd (bus_in s)) AND 0x80 \<noteq> 0 \<and> n - 1 \<noteq> 0")
    case True
    then have "\<exists>j. resp_loop (n - 1) (snd (xchg_spi 0xFF s))
        = (snd (bus_in (snd (xchg_spi 0xFF s)) !! j), sends (replicate (Suc j) 0xFF) (snd (xchg_spi 0xFF s)))"
      by (intro "1.IH") (auto simp: prod_eq_iff)
    then obtain j where "resp_loop (n - 1) (snd (xchg_spi 0xFF s))
        = (snd (bus_in (snd (xchg_spi 0xFF s)) !! j), sends (replicate (Suc j) 0xFF) (snd (xchg_spi 0xFF s)))"
      by blast
    with True have "resp_loop n s = (snd (bus_in s !! Suc j), sends (replicate (Suc (Suc j)) 0xFF) s)"
      by (subst resp_loop.simps) (simp add: split_beta)
    then show ?thesis by blast
  next
    case False
    then have "resp_loop n s = (snd (bus_in s !! 0), sends (replicate (Suc 0) 0xFF) s)"
      by (subst resp_loop.simps) (auto simp: split_beta)
    then show ?thesis by blast
  qed
qed



subsection \<open>What the bus operations leave alone\<close>

text \<open>No transfer changes the card type or the not-initialized flag, and the status byte
  never grows: ticks only clear flags.\<close>

definition holds :: "drv \<Rightarrow> drv \<Rightarrow> bool" where
  "holds s s' \<longleftrightarrow>
     CardType s' = CardType s \<and> Stat s' AND 1 = Stat s AND 1 \<and> Stat s' \<le> Stat s"

named_theorems holdsI
named_theorems holdsE

lemma holds_refl [simp, holdsI]: "holds s s"
  by (simp add: holds_def)

lemma holds_trans: "holds s s1 \<Longrightarrow> holds s1 s2 \<Longrightarrow> holds s s2"
  by (auto simp: holds_def)

lemma holds_updates [simp]:
  "holds s (s1\<lparr>Timer1 := a\<rparr>) = holds s s1" "holds s (s1\<lparr>Timer2 := b\<rparr>) = holds s s1"
  "holds (s\<lparr>Timer1 := a\<rparr>) s1 = holds s s1" "holds (s\<lparr>Timer2 := b\<rparr>) s1 = holds s s1"
  by (simp_all add: holds_def)

lemma holds_xchg: "holds s (snd (xchg_spi d s))"
  by (simp add: holds_def and.assoc word_and_le2)

lemma holds_xchgI [holdsI]: "holds s s1 \<Longrightarrow> holds s (snd (xchg_spi d s1))"
  by (erule holds_trans) (rule holds_xchg)

lemma holds_xchgE [holdsE]: "xchg_spi d s1 = (b, s2) \<Longrightarrow> holds s s1 \<Longrightarrow> holds s s2"
  using holds_xchgI [of s s1 d] by simp

lemma holds_emitI [holdsI]: "holds s s1 \<Longrightarrow> holds s (emit e s1)"
  by (simp add: holds_def emit_def)

lemma holds_sendsI [holdsI]: "holds s s1 \<Longrightarrow> holds s (sends ds s1)"
  by (erule holds_trans) (simp add: holds_def and.assoc word_and_le2)

lemma holds_deselectI [holdsI]: "holds s s1 \<Longrightarrow> holds s (mmc_deselect s1)"
  unfolding mmc_deselect_def by (intro holdsI)

lemma holds_resp_loopE [holdsE]: "resp_loop n s1 = (r, s2) \<Longrightarrow> holds s s1 \<Longrightarrow> holds s s2"
  using resp_loop_sends [of n s1] holds_sendsI [of s s1] by (metis prod.inject)


lemma holds_wait_loop: "wait_loop s1 = Some y \<Longrightarrow> holds s s1 \<Longrightarrow> holds s (snd y)"
proof (induction rule: wait_loop.raw_induct [rotated 1, consumes 1])
  case (1 f s1 y)
  show ?case
    by (insert 1(2,3), auto simp: split_beta Let_def split: if_splits;
        (assumption | rule holdsI | erule "1.IH")+)
qed

lemma holds_wait_loopE [holdsE]: "wait_loop s1 = Some (d, s2) \<Longrightarrow> holds s s1 \<Longrightarrow> holds s s2"
  using holds_wait_loop [of s1 "(d, s2)" s] by simp

lemma holds_token_loop: "token_loop s1 = Some y \<Longrightarrow> holds s s1 \<Longrightarrow> holds s (snd y)"
proof (induction rule: token_loop.raw_induct [rotated 1, consumes 1])
  case (1 f s1 y)
  show ?case
    by (insert 1(2,3), auto simp: split_beta Let_def split: if_splits;
        (assumption | rule holdsI | erule "1.IH")+)
qed

lemma holds_token_loopE [holdsE]: "token_loop s1 = Some (d, s2) \<Longrightarrow> holds s s1 \<Longrightarrow> holds s s2"
  using holds_token_loop [of s1 "(d, s2)" s] by simp

lemma holds_wait_readyE [holdsE]: "wait_ready s1 = Some (r, s2) \<Longrightarrow> holds s s1 \<Longrightarrow> holds s s2"
  by (auto simp: wait_ready_def bind_eq_Some_conv; (erule holdsE, simp))

lemma holds_selectE [holdsE]: "mmc_select s1 = Some (r, s2) \<Longrightarrow> holds s s1 \<Longrightarrow> holds s s2"
  by (auto simp: mmc_select_def bind_eq_Some_conv split: if_splits;
      (assumption | rule holdsI | erule holdsE)+)

lemma holds_rcvr_datablockE [holdsE]:
  "rcvr_datablock btr s1 = Some (r, s2) \<Longrightarrow> holds s s1 \<Longrightarrow> holds s s2"
  by (auto simp: rcvr_datablock_def bind_eq_Some_conv rcvr_spi_multi_eq split: if_splits;
      (assumption | rule holdsI | erule holdsE | simp)+)

lemma holds_xmit_datablockE [holdsE]:
  "xmit_datablock buff tok s1 = Some (r, s2) \<Longrightarrow> holds s s1 \<Longrightarrow> holds s s2"
  by (auto simp: xmit_datablock_def bind_eq_Some_conv xmit_spi_multi_eq Let_def split_beta
      split: if_splits; (assumption | rule holdsI | erule holdsE)+)


lemma holds_send_frameE [holdsE]:
  "send_frame cmd arg s1 = Some (r, s2) \<Longrightarrow> holds s s1 \<Longrightarrow> holds s s2"
  by (auto simp: send_frame_def bind_eq_Some_conv Let_def split: if_splits;
      (assumption | rule holdsI | erule holdsE)+)

lemma holds_send_cmdE [holdsE]:
  "send_cmd cmd arg s1 = Some (r, s2) \<Longrightarrow> holds s s1 \<Longrightarrow> holds s s2"
proof (induction cmd arg s1 arbitrary: r s2 rule: send_cmd.induct)
  case (1 cmd arg s1)
  have IH: "cmd AND 0x80 \<noteq> 0 \<Longrightarrow> send_cmd 55 0 s1 = Some (a, b) \<Longrightarrow> holds s s1 \<Longrightarrow> holds s b"
    for a b using "1.IH" [of a b] by simp
  from "1.prems" show ?case
    by (subst (asm) send_cmd.simps)
      (auto split: if_splits option.splits;
        (assumption | rule holdsI | erule holdsE IH)+)
qed


lemma holds_idle_wait: "idle_wait cmd arg s1 = Some s2 \<Longrightarrow> holds s s1 \<Longrightarrow> holds s s2"
proof (induction rule: idle_wait.raw_induct [rotated 1, consumes 1])
  case (1 f cmd arg s1 s2)
  show ?case
    by (insert 1(2,3), auto simp: bind_eq_Some_conv split: if_splits;
        (assumption | rule holdsI | erule holdsE "1.IH")+)
qed

lemma holds_probe_v2E [holdsE]: "probe_v2 s1 = Some (ty, s2) \<Longrightarrow> holds s s1 \<Longrightarrow> holds s s2"
  by (auto simp: probe_v2_def bind_eq_Some_conv rcvr_bytes_eq Let_def split: if_splits;
      (assumption | rule holdsI | erule holdsE holds_idle_wait)+)

lemma holds_probe_v1E [holdsE]: "probe_v1 s1 = Some (ty, s2) \<Longrightarrow> holds s s1 \<Longrightarrow> holds s s2"
  by (auto simp: probe_v1_def bind_eq_Some_conv Let_def split: if_splits;
      (assumption | rule holdsI | erule holdsE holds_idle_wait)+)

lemma holds_card_probeE [holdsE]: "card_probe s1 = Some (ty, s2) \<Longrightarrow> holds s s1 \<Longrightarrow> holds s s2"
  by (auto simp: card_probe_def bind_eq_Some_conv split: if_splits;
      (assumption | rule holdsI | erule holdsE | simp)+)

lemma holds_read_blocks: "read_blocks count s1 = Some y \<Longrightarrow> holds s s1 \<Longrightarrow> holds s (snd y)"
proof (induction rule: read_blocks.raw_induct [rotated 1, consumes 1])
  case (1 f count s1 y)
  from 1(2) obtain r s2 where rcv: "rcvr_datablock 512 s1 = Some (r, s2)"
    and rest: "(case r of None \<Rightarrow> Some ((count, []), s2)
        | Some blk \<Rightarrow>
            if count - 1 \<noteq> 0
            then f (count - 1) s2 \<bind> (\<lambda>((c, rest), s3). Some ((c, blk @ rest), s3))
            else Some ((count - 1, blk), s2)) = Some y"
    by (auto simp: bind_eq_Some_conv)
  from rcv 1(3) have s2: "holds s s2" by (rule holdsE)
  show ?case
  proof (cases r)
    case None
    with rest s2 show ?thesis by auto
  next
    case (Some blk)
    show ?thesis
    proof (cases "count - 1 \<noteq> 0")
      case True
      with rest Some obtain q s3 where "f (count - 1) s2 = Some (q, s3)" "snd y = s3"
        by (auto simp: bind_eq_Some_conv)
      with "1.IH" [of "count - 1" s2 "(q, s3)"] s2 show ?thesis by simp
    next
      case False
      with rest Some s2 show ?thesis by auto
    qed
  qed
qed

lemma holds_read_blocksE [holdsE]:
  "read_blocks count s1 = Some (r, s2) \<Longrightarrow> holds s s1 \<Longrightarrow> holds s s2"
  using holds_read_blocks [of count s1 "(r, s2)" s] by simp

lemma holds_write_blocks: "write_blocks buff count s1 = Some y \<Longrightarrow> holds s s1 \<Longrightarrow> holds s (snd y)"
proof (induction rule: write_blocks.raw_induct [rotated 1, consumes 1])
  case (1 f buff count s1 y)
  show ?case
    by (insert 1(2,3), auto simp: bind_eq_Some_conv split: if_splits;
        (assumption | rule holdsI | erule holdsE "1.IH")+)
qed

lemma holds_write_blocksE [holdsE]:
  "write_blocks buff count s1 = Some (r, s2) \<Longrightarrow> holds s s1 \<Longrightarrow> holds s s2"
  using holds_write_blocks [of buff count s1 "(r, s2)" s] by simp

lemma holds_pre_eraseE [holdsE]: "pre_erase count s1 = Some s2 \<Longrightarrow> holds s s1 \<Longrightarrow> holds s s2"
  by (auto simp: pre_erase_def split: if_splits; (assumption | erule holdsE)+)

lemma holds_read_singleE [holdsE]:
  "read_single sect s1 = Some (r, s2) \<Longrightarrow> holds s s1 \<Longrightarrow> holds s s2"
  by (auto simp: read_single_def bind_eq_Some_conv split: if_splits;
      (assumption | rule holdsI | erule holdsE)+)

lemma holds_read_multiE [holdsE]:
  "read_multi sect count s1 = Some (r, s2) \<Longrightarrow> holds s s1 \<Longrightarrow> holds s s2"
  by (auto simp: read_multi_def bind_eq_Some_conv split: if_splits;
      (assumption | rule holdsI | erule holdsE)+)

lemma holds_disk_read: "disk_read pdrv sector count s = Some (r, s') \<Longrightarrow> holds s s'"
  by (auto simp: disk_read_def bind_eq_Some_conv split: if_splits;
      (rule holdsI | erule holdsE)+)

lemma holds_write_singleE [holdsE]:
  "write_single buff sect s1 = Some (r, s2) \<Longrightarrow> holds s s1 \<Longrightarrow> holds s s2"
  by (auto simp: write_single_def bind_eq_Some_conv split: if_splits;
      (assumption | rule holdsI | erule holdsE)+)

lemma holds_write_multiE [holdsE]:
  "write_multi buff sect count s1 = Some (r, s2) \<Longrightarrow> holds s s1 \<Longrightarrow> holds s s2"
  by (auto simp: write_multi_def bind_eq_Some_conv split: if_splits;
      (assumption | rule holdsI | erule holdsE)+)

lemma holds_disk_write: "disk_write pdrv buff sector count s = Some (r, s') \<Longrightarrow> holds s s'"
  by (auto simp: disk_write_def bind_eq_Some_conv split: if_splits;
      (rule holdsI | erule holdsE)+)

subsection \<open>Control operations and ticks\<close>

lemma holds_read_registerE [holdsE]:
  "read_register cmd btr s1 = Some (r, s2) \<Longrightarrow> holds s s1 \<Longrightarrow> holds s s2"
  by (auto simp: read_register_def bind_eq_Some_conv split: if_splits;
      (assumption | rule holdsI | erule holdsE)+)

lemma holds_read_sd_statusE [holdsE]:
  "read_sd_status btr s1 = Some (r, s2) \<Longrightarrow> holds s s1 \<Longrightarrow> holds s s2"
  by (auto simp: read_sd_status_def bind_eq_Some_conv split: if_splits;
      (assumption | rule holdsI | erule holdsE)+)

lemma holds_ioctl_switchE [holdsE]:
  "ioctl_switch cmd s1 = Some (r, s2) \<Longrightarrow> holds s s1 \<Longrightarrow> holds s s2"
  by (cases cmd;
      auto simp: ioctl_switch_def rcvr_bytes_eq skip_bytes_eq
        split: bind_splits if_splits option.splits sum.splits;
      (assumption | rule holdsI | erule holdsE)+)

lemma holds_disk_ioctl: "disk_ioctl pdrv cmd s = Some (r, s') \<Longrightarrow> holds s s'"
  by (auto simp: disk_ioctl_def split: bind_splits if_splits sum.splits;
      (rule holdsI | erule holdsE)+)

lemma holds_disk_timerproc: "holds s (disk_timerproc s)"
  by (simp add: holds_def disk_timerproc_eq and.assoc word_and_le2)

subsection \<open>The guards of read and write\<close>

text \<open>
  C1. A call of \<open>disk_read\<close> or \<open>disk_write\<close> with a drive index other than 0 or a count
  of 0 returns the parameter error in the state it was called in: no byte is exchanged
  and nothing is changed. With valid parameters and the not-initialized flag set it
  returns not-ready, and \<open>disk_write\<close> with valid parameters on an initialized drive whose
  write-protected flag is set returns write-protected, each again in the unchanged state.
\<close>

theorem read_write_guards:
  "(pdrv \<noteq> 0 \<or> count = 0 \<longrightarrow>
      disk_read pdrv sector count s = Some ((RES_PARERR, []), s)
      \<and> disk_write pdrv buff sector count s = Some (RES_PARERR, s))
   \<and> (pdrv = 0 \<and> count \<noteq> 0 \<and> Stat s AND STA_NOINIT \<noteq> 0 \<longrightarrow>
      disk_read pdrv sector count s = Some ((RES_NOTRDY, []), s)
      \<and> disk_write pdrv buff sector count s = Some (RES_NOTRDY, s))
   \<and> (pdrv = 0 \<and> count \<noteq> 0 \<and> Stat s AND STA_NOINIT = 0 \<and> Stat s AND STA_PROTECT \<noteq> 0 \<longrightarrow>
      disk_write pdrv buff sector count s = Some (RES_WRPRT, s))"
  by (simp add: disk_read_def disk_write_def)

theorem read_write_guards_witness:
  "disk_read 1 0 1 (power_up (sconst (0, 0xFF))) = Some ((RES_PARERR, []), power_up (sconst (0, 0xFF)))
   \<and> disk_write 0 (\<lambda>i. 0) 0 0 (power_up (sconst (0, 0xFF))) = Some (RES_PARERR, power_up (sconst (0, 0xFF)))
   \<and> disk_read 0 0 1 (power_up (sconst (0, 0xFF))) = Some ((RES_NOTRDY, []), power_up (sconst (0, 0xFF)))
   \<and> disk_write 0 (\<lambda>i. 0) 0 1 (power_up (sconst (0, 0xFF))) = Some (RES_NOTRDY, power_up (sconst (0, 0xFF)))
   \<and> disk_write 0 (\<lambda>i. 0) 0 1 (power_up (sconst (0, 0xFF))\<lparr>Stat := STA_PROTECT\<rparr>)
       = Some (RES_WRPRT, power_up (sconst (0, 0xFF))\<lparr>Stat := STA_PROTECT\<rparr>)"
  using read_write_guards [of 1 1 0 "power_up (sconst (0, 0xFF))" "\<lambda>i. 0"]
    read_write_guards [of 0 0 0 "power_up (sconst (0, 0xFF))" "\<lambda>i. 0"]
    read_write_guards [of 0 1 0 "power_up (sconst (0, 0xFF))" "\<lambda>i. 0"]
    read_write_guards [of 0 1 0 "power_up (sconst (0, 0xFF))\<lparr>Stat := STA_PROTECT\<rparr>" "\<lambda>i. 0"]
  by (simp add: power_up_def)

text \<open>
  C10. With the no-disk flag set, \<open>disk_initialize\<close> for the drive returns the status
  byte at once, in the state it was called in: no byte is exchanged and the status
  flags, the card type and the timers are unchanged. The guard on the drive index that
  comes before it answers a call for any drive other than 0 with \<open>STA_NOINIT\<close>, also in
  the unchanged state.
\<close>

theorem disk_initialize_no_disk:
  "(Stat s AND STA_NODISK \<noteq> 0 \<longrightarrow> disk_initialize 0 s = Some (Stat s, s))
   \<and> (pdrv \<noteq> 0 \<longrightarrow> disk_initialize pdrv s = Some (STA_NOINIT, s))"
  by (simp add: disk_initialize_def)

theorem disk_initialize_no_disk_witness:
  "disk_initialize 0 (power_up (sconst (0, 0xFF))\<lparr>Stat := 3\<rparr>)
     = Some (3, power_up (sconst (0, 0xFF))\<lparr>Stat := 3\<rparr>)
   \<and> disk_initialize 1 (power_up (sconst (0, 0xFF))\<lparr>Stat := 3\<rparr>)
     = Some (STA_NOINIT, power_up (sconst (0, 0xFF))\<lparr>Stat := 3\<rparr>)"
  using disk_initialize_no_disk [of "power_up (sconst (0, 0xFF))\<lparr>Stat := 3\<rparr>" 1]
  by (simp add: power_up_def)

subsection \<open>Initialization\<close>

lemma holds_probe_start: "holds s (probe_start s)"
  unfolding probe_start_def skip_bytes_eq by (intro holdsI)

lemma ucast_byte_eq_0 [simp]: "(ucast (ty :: byte) :: dword) = 0 \<longleftrightarrow> ty = 0"
  by transfer simp

lemma disk_initialize_run:
  assumes "Stat s AND STA_NODISK = 0" and "disk_initialize 0 s = Some (st, s')"
  shows "\<exists>ty s1. card_probe (probe_start s) = Some (ty, s1) \<and> holds s s1 \<and> st = Stat s'
    \<and> s' = probe_exit ty s1"
proof -
  from assms obtain ty s1 where p: "card_probe (probe_start s) = Some (ty, s1)"
    and r: "st = Stat s'" "s' = probe_exit ty s1"
    by (auto simp: disk_initialize_def split: bind_splits)
  from p holds_probe_start have "holds s s1" by (rule holdsE)
  with p r show ?thesis by blast
qed

lemma deselect_fields [simp]:
  "CardType (mmc_deselect s) = CardType s"
  "Stat (mmc_deselect s) AND 1 = Stat s AND 1"
  "bus_log (mmc_deselect s) = bus_log s @ [CS_HIGH, Xchg 0xFF (snd (shd (bus_in s)))]"
  by (simp_all add: mmc_deselect_def emit_def and.assoc)

lemma Stat_deselect_le: "Stat (mmc_deselect s) \<le> Stat s"
  by (simp add: mmc_deselect_def emit_def word_and_le2)

lemma emit_fields [simp]:
  "CardType (emit e s) = CardType s" "Stat (emit e s) = Stat s"
  "bus_log (emit e s) = bus_log s @ [e]"
  by (simp_all add: emit_def)

text \<open>The exit of a \<open>disk_initialize\<close> run that reaches the probe sequence. The status
  byte returned is the one stored. If the detected card type is not zero, the
  not-initialized flag is clear and the fast clock is selected. If it is zero, the
  power-off hook is invoked, and since the hook is empty and nothing on this path writes
  the flag, the flag is what it was at the call. In both cases the card is deselected,
  \<open>CS_HIGH\<close> and one filler byte, right before the hook.\<close>

lemma disk_initialize_exit:
  assumes "Stat s AND STA_NODISK = 0" and "disk_initialize 0 s = Some (st, s')"
  shows "st = Stat s'
    \<and> (CardType s' \<noteq> 0 \<longrightarrow>
          Stat s' AND STA_NOINIT = 0
          \<and> (\<exists>pre b. bus_log s' = pre @ [CS_HIGH, Xchg 0xFF b, Hook FCLK_FAST]))
    \<and> (CardType s' = 0 \<longrightarrow>
          Stat s' AND STA_NOINIT = Stat s AND STA_NOINIT
          \<and> (\<exists>pre b. bus_log s' = pre @ [CS_HIGH, Xchg 0xFF b, Hook POWER_OFF]))"
proof -
  from disk_initialize_run [OF assms] obtain ty s1 where h: "holds s s1" and st: "st = Stat s'"
    and s': "s' = probe_exit ty s1"
    by blast
  show ?thesis
  proof (cases "ty = 0")
    case True
    with s' h st show ?thesis by (simp add: probe_exit_def Let_def holds_def)
  next
    case False
    with s' st show ?thesis by (simp add: probe_exit_def Let_def and.assoc)
  qed
qed

text \<open>
  C5. A \<open>disk_initialize\<close> call that is rejected for its drive index or for the no-disk
  flag leaves the card type as it is. Every run that reaches the probe sequence stores
  the detected type, which is zero when the run fails. \<open>disk_read\<close>, \<open>disk_write\<close>,
  \<open>disk_ioctl\<close> and the tick handler leave the card type as it is, and \<open>disk_status\<close>
  has no state to change.
\<close>

theorem CardType_written:
  "(pdrv \<noteq> 0 \<or> Stat s AND STA_NODISK \<noteq> 0 \<longrightarrow> (\<exists>st. disk_initialize pdrv s = Some (st, s)))
   \<and> (Stat s AND STA_NODISK = 0 \<and> disk_initialize 0 s = Some (st, s') \<longrightarrow>
        (\<exists>ty s1. card_probe (probe_start s) = Some (ty, s1) \<and> CardType s' = ucast ty))
   \<and> (disk_read pdrv sector count s = Some (r, s') \<longrightarrow> CardType s' = CardType s)
   \<and> (disk_write pdrv buff sector count s = Some (w, s') \<longrightarrow> CardType s' = CardType s)
   \<and> (disk_ioctl pdrv cmd s = Some (c, s') \<longrightarrow> CardType s' = CardType s)
   \<and> CardType (disk_timerproc s) = CardType s"
proof (intro conjI impI)
  assume "pdrv \<noteq> 0 \<or> Stat s AND STA_NODISK \<noteq> 0"
  then show "\<exists>st. disk_initialize pdrv s = Some (st, s)"
    by (auto simp: disk_initialize_def)
next
  assume a: "Stat s AND STA_NODISK = 0 \<and> disk_initialize 0 s = Some (st, s')"
  then obtain ty s1 where "card_probe (probe_start s) = Some (ty, s1)" and "s' = probe_exit ty s1"
    using disk_initialize_run [of s st s'] by blast
  then show "\<exists>ty s1. card_probe (probe_start s) = Some (ty, s1) \<and> CardType s' = ucast ty"
    by (auto simp: probe_exit_def Let_def)
next
  assume "disk_read pdrv sector count s = Some (r, s')"
  then show "CardType s' = CardType s"
    by (auto dest: holds_disk_read simp: holds_def)
next
  assume "disk_write pdrv buff sector count s = Some (w, s')"
  then show "CardType s' = CardType s"
    by (auto dest: holds_disk_write simp: holds_def)
next
  assume "disk_ioctl pdrv cmd s = Some (c, s')"
  then show "CardType s' = CardType s"
    by (auto dest: holds_disk_ioctl simp: holds_def)
next
  show "CardType (disk_timerproc s) = CardType s"
    by (simp add: disk_timerproc_eq)
qed

subsection \<open>The socket flags\<close>

text \<open>The states the driver can be in: the initial values of the globals with any card
  on the bus, and from there any sequence of ticks and calls that return.\<close>

inductive reachable :: "drv \<Rightarrow> bool" where
  at_start: "reachable (power_up bus)"
| after_tick: "reachable s \<Longrightarrow> reachable (disk_timerproc s)"
| after_initialize: "reachable s \<Longrightarrow> disk_initialize pdrv s = Some (st, s') \<Longrightarrow> reachable s'"
| after_read: "reachable s \<Longrightarrow> disk_read pdrv sector count s = Some (r, s') \<Longrightarrow> reachable s'"
| after_write: "reachable s \<Longrightarrow> disk_write pdrv buff sector count s = Some (w, s') \<Longrightarrow> reachable s'"
| after_ioctl: "reachable s \<Longrightarrow> disk_ioctl pdrv cmd s = Some (c, s') \<Longrightarrow> reachable s'"

lemma disk_initialize_Stat_le: "disk_initialize pdrv s = Some (st, s') \<Longrightarrow> Stat s' \<le> Stat s"
proof (cases "pdrv \<noteq> 0 \<or> Stat s AND STA_NODISK \<noteq> 0")
  case True
  assume "disk_initialize pdrv s = Some (st, s')"
  with True show ?thesis by (auto simp: disk_initialize_def split: if_splits)
next
  case False
  assume "disk_initialize pdrv s = Some (st, s')"
  with False obtain ty s1 where h: "holds s s1" and s': "s' = probe_exit ty s1"
    using disk_initialize_run [of s st s'] by auto
  have "Stat (mmc_deselect (s1\<lparr>CardType := ucast ty\<rparr>)) \<le> Stat s1"
    using Stat_deselect_le [of "s1\<lparr>CardType := ucast ty\<rparr>"] by simp
  also have "\<dots> \<le> Stat s"
    using h by (simp add: holds_def)
  finally have d: "Stat (mmc_deselect (s1\<lparr>CardType := ucast ty\<rparr>)) \<le> Stat s" .
  have "Stat (mmc_deselect (s1\<lparr>CardType := ucast ty\<rparr>)) AND NOT STA_NOINIT
      \<le> Stat (mmc_deselect (s1\<lparr>CardType := ucast ty\<rparr>))"
    by (rule word_and_le2)
  with s' d show ?thesis by (cases "ty = 0") (simp_all add: probe_exit_def Let_def)
qed

lemma reachable_Stat: "reachable s \<Longrightarrow> Stat s \<le> STA_NOINIT"
proof (induction rule: reachable.induct)
  case (at_start bus)
  show ?case by (simp add: power_up_def)
next
  case (after_tick s)
  have "Stat (disk_timerproc s) \<le> Stat s"
    by (simp add: disk_timerproc_eq word_and_le2)
  with after_tick.IH show ?case by simp
next
  case (after_initialize s pdrv st s')
  from after_initialize.hyps(2) have "Stat s' \<le> Stat s" by (rule disk_initialize_Stat_le)
  with after_initialize.IH show ?case by simp
next
  case (after_read s pdrv sector count r s')
  from after_read.hyps(2) have "Stat s' \<le> Stat s" by (auto dest: holds_disk_read simp: holds_def)
  with after_read.IH show ?case by simp
next
  case (after_write s pdrv buff sector count w s')
  from after_write.hyps(2) have "Stat s' \<le> Stat s" by (auto dest: holds_disk_write simp: holds_def)
  with after_write.IH show ?case by simp
next
  case (after_ioctl s pdrv cmd c s')
  from after_ioctl.hyps(2) have "Stat s' \<le> Stat s" by (auto dest: holds_disk_ioctl simp: holds_def)
  with after_ioctl.IH show ?case by simp
qed

lemma byte_le_1: "(x :: byte) \<le> 1 \<Longrightarrow> x = 0 \<or> x = 1"
  by (auto simp: order.order_iff_strict)

text \<open>
  C9. The write-protect and card-detect lines are constants, so a tick clears the
  write-protected and the no-disk flag, sets neither, and leaves the not-initialized
  flag as it is. In every state reachable from the initial one both flags are clear,
  and \<open>disk_write\<close> never returns the write-protected result.
\<close>

theorem socket_flags_clear:
  "Stat (disk_timerproc s) AND STA_PROTECT = 0
   \<and> Stat (disk_timerproc s) AND STA_NODISK = 0
   \<and> Stat (disk_timerproc s) AND STA_NOINIT = Stat s AND STA_NOINIT
   \<and> (reachable s \<longrightarrow>
        Stat s AND STA_PROTECT = 0 \<and> Stat s AND STA_NODISK = 0
        \<and> (\<forall>pdrv buff sector count s'.
              disk_write pdrv buff sector count s \<noteq> Some (RES_WRPRT, s')))"
proof (intro conjI impI)
  show "Stat (disk_timerproc s) AND STA_PROTECT = 0"
    "Stat (disk_timerproc s) AND STA_NODISK = 0"
    "Stat (disk_timerproc s) AND STA_NOINIT = Stat s AND STA_NOINIT"
    by (simp_all add: disk_timerproc_eq and.assoc)
next
  assume "reachable s"
  then have "Stat s = 0 \<or> Stat s = 1"
    using reachable_Stat [of s] byte_le_1 [of "Stat s"] by simp
  then show a: "Stat s AND STA_PROTECT = 0" and "Stat s AND STA_NODISK = 0"
    by auto
  show "\<forall>pdrv buff sector count s'. disk_write pdrv buff sector count s \<noteq> Some (RES_WRPRT, s')"
    using a by (auto simp: disk_write_def split: bind_splits if_splits)
qed

theorem socket_flags_clear_witness:
  "Stat (disk_timerproc (power_up (sconst (0, 0xFF)))) AND STA_PROTECT = 0
   \<and> Stat (disk_timerproc (power_up (sconst (0, 0xFF)))) AND STA_NODISK = 0
   \<and> Stat (disk_timerproc (power_up (sconst (0, 0xFF)))) AND STA_NOINIT
       = Stat (power_up (sconst (0, 0xFF))) AND STA_NOINIT
   \<and> Stat (power_up (sconst (0, 0xFF))) AND STA_PROTECT = 0
   \<and> Stat (power_up (sconst (0, 0xFF))) AND STA_NODISK = 0
   \<and> (\<forall>pdrv buff sector count s'.
         disk_write pdrv buff sector count (power_up (sconst (0, 0xFF))) \<noteq> Some (RES_WRPRT, s'))"
  using socket_flags_clear [of "power_up (sconst (0, 0xFF))"] reachable.at_start [of "sconst (0, 0xFF)"]
  by blast

subsection \<open>Running the driver on a given card\<close>

text \<open>The rules that run the model on a concrete state, each call with its arguments
  evaluated first.\<close>

lemma replicate_numeral: "replicate (numeral k) x = x # replicate (pred_numeral k) x"
  by (simp add: numeral_eq_Suc)

lemma stake_numeral: "stake (numeral k) s = shd s # stake (pred_numeral k) (stl s)"
  by (simp add: numeral_eq_Suc)

lemma let_weak_cong: "a = b \<Longrightarrow> Let a t = Let b t"
  by simp

lemma bind_weak_cong: "m = m' \<Longrightarrow> Option.bind m f = Option.bind m' f"
  by simp

text \<open>An exchange runs on a state that is written out and whose next bus entry is known.\<close>

lemma xchg_spi_run:
  "xchg_spi dat \<lparr>Stat = st, Timer1 = t1, Timer2 = t2, CardType = ct,
                  bus_in = (t, b) ## rest, bus_log = lg\<rparr>
     = (b, \<lparr>Stat = (if t = 0 then st else st AND NOT 6), Timer1 = t1 - t, Timer2 = t2 - t,
            CardType = ct, bus_in = rest, bus_log = lg @ [Xchg dat b]\<rparr>)"
  "xchg_spi dat \<lparr>Stat = st, Timer1 = t1, Timer2 = t2, CardType = ct,
                  bus_in = sconst (t, b), bus_log = lg\<rparr>
     = (b, \<lparr>Stat = (if t = 0 then st else st AND NOT 6), Timer1 = t1 - t, Timer2 = t2 - t,
            CardType = ct, bus_in = sconst (t, b), bus_log = lg @ [Xchg dat b]\<rparr>)"
  by (simp_all add: xchg_spi_eq)

lemmas run =
  xchg_spi_run emit_def skip_bytes_eq rcvr_bytes_eq xmit_spi_multi_eq rcvr_spi_multi_eq
  replicate_numeral stake_numeral wait_loop.simps wait_ready_def
  mmc_deselect_def mmc_select_def token_loop.simps rcvr_datablock_def xmit_datablock_def
  resp_loop.simps send_frame_def send_cmd.simps idle_wait.simps probe_v2_def probe_v1_def
  card_probe_def probe_start_def probe_exit_def disk_initialize_def card_address_def
  read_register_def read_single_def read_multi_def disk_read_def write_blocks.simps
  pre_erase_def write_single_def write_multi_def disk_write_def Let_def

subsection \<open>The sector count\<close>

text \<open>The sector count as the CSD layouts give it, over the natural numbers: for
  structure version 1 the 22-bit \<open>C_SIZE\<close> plus one, times 1024; for version 0 the 12-bit
  \<open>C_SIZE\<close> plus one, shifted by \<open>READ_BL_LEN + C_SIZE_MULT + 2 - 9\<close>.\<close>

definition csd_v2_sectors :: "byte list \<Rightarrow> nat" where
  "csd_v2_sectors csd =
     push_bit 10 (unat (csd ! 9) + push_bit 8 (unat (csd ! 8))
                  + push_bit 16 (unat (csd ! 7 AND 63)) + 1)"

definition csd_v1_shift :: "byte list \<Rightarrow> nat" where
  "csd_v1_shift csd =
     unat (csd ! 5 AND 15) + drop_bit 7 (unat (csd ! 10 AND 128)) + push_bit 1 (unat (csd ! 9 AND 3)) + 2"

definition csd_v1_sectors :: "byte list \<Rightarrow> nat" where
  "csd_v1_sectors csd =
     push_bit (csd_v1_shift csd - 9)
       (drop_bit 6 (unat (csd ! 8)) + push_bit 2 (unat (csd ! 7))
        + push_bit 10 (unat (csd ! 6 AND 3)) + 1)"

lemma unat_and_le: "unat (x AND m) \<le> unat m" for x m :: byte
  by (simp add: word_and_le1 flip: word_le_nat_alt)

lemma csd_v1_shift_le: "csd_v1_shift csd \<le> 24"
proof -
  have "unat (csd ! 5 AND 15) \<le> 15" using unat_and_le [of "csd ! 5" 15] by simp
  moreover have "unat (csd ! 10 AND 128) \<le> 128" using unat_and_le [of "csd ! 10" 128] by simp
  then have "drop_bit 7 (unat (csd ! 10 AND 128)) \<le> 1"
    by (simp add: drop_bit_eq_div)
  moreover have "unat (csd ! 9 AND 3) \<le> 3" using unat_and_le [of "csd ! 9" 3] by simp
  then have "push_bit 1 (unat (csd ! 9 AND 3)) \<le> 6"
    by (simp add: push_bit_eq_mult)
  ultimately show ?thesis by (simp add: csd_v1_shift_def)
qed

lemma csd_v1_size_le:
  "drop_bit 6 (unat (csd ! 8 :: byte)) + push_bit 2 (unat (csd ! 7 :: byte))
     + push_bit 10 (unat (csd ! 6 AND 3 :: byte)) + 1 \<le> 4096"
proof -
  have "unat (csd ! 8) < 256"
    using unsigned_less [of "csd ! 8"] by simp
  then have a: "drop_bit 6 (unat (csd ! 8)) \<le> 3"
    by (simp add: drop_bit_eq_div)
  have b: "unat (csd ! 7) < 256"
    using unsigned_less [of "csd ! 7"] by simp
  have c: "unat (csd ! 6 AND 3) \<le> 3"
    using unat_and_le [of "csd ! 6" 3] by simp
  have m: "push_bit 2 (unat (csd ! 7)) = unat (csd ! 7) * 4"
    "push_bit 10 (unat (csd ! 6 AND 3)) = unat (csd ! 6 AND 3) * 1024"
    by (simp_all add: push_bit_eq_mult)
  show ?thesis
    unfolding m using a b c by linarith
qed

lemma csd_v1_sectors_less: "csd_v1_sectors csd < 2 ^ 32"
proof -
  have "csd_v1_sectors csd \<le> 4096 * 2 ^ (csd_v1_shift csd - 9)"
    unfolding csd_v1_sectors_def push_bit_eq_mult [of "csd_v1_shift csd - 9"]
    by (rule mult_le_mono1) (rule csd_v1_size_le)
  also have "\<dots> \<le> 4096 * 2 ^ 15"
    using csd_v1_shift_le [of csd] by (intro mult_le_mono2 power_increasing) simp_all
  also have "\<dots> < (2 :: nat) ^ 32" by simp
  finally show ?thesis .
qed

lemma csd_sectors_v2:
  assumes "drop_bit 6 (csd ! 0) = 1"
  shows "\<exists>w. csd_sectors csd = Inr w \<and> unat w = csd_v2_sectors csd mod 2 ^ 32"
proof -
  let ?W = "ucast (csd ! 9) + push_bit 8 (ucast (csd ! 8)) + push_bit 16 (ucast (csd ! 7 AND 63)) + (1 :: dword)"
  have "?W = of_nat (unat (csd ! 9) + push_bit 8 (unat (csd ! 8)) + push_bit 16 (unat (csd ! 7 AND 63)) + 1)"
    by (simp add: of_nat_push_bit)
  then have "push_bit 10 ?W = of_nat (csd_v2_sectors csd)"
    unfolding csd_v2_sectors_def by (simp only: push_bit_of_nat)
  moreover have "csd_sectors csd = Inr (push_bit 10 ?W)"
    using assms by (simp add: csd_sectors_def Let_def)
  ultimately have "csd_sectors csd = Inr (of_nat (csd_v2_sectors csd))"
    by simp
  then show ?thesis
    by (simp add: unat_of_nat)
qed

lemma ucast_byte: "(ucast (w :: byte) :: dword) = of_nat (unat w)"
  by simp

lemma drop_bit_of_nat_byte:
  "drop_bit n (of_nat (unat (w :: byte)) :: dword) = of_nat (drop_bit n (unat w))"
proof -
  have "of_nat (drop_bit n (unat w)) = (ucast (drop_bit n w) :: dword)"
    by (simp only: of_nat_unat flip: unat_drop_bit_eq)
  also have "\<dots> = drop_bit n (ucast w)"
    by (rule ucast_drop_bit_eq) simp
  finally show ?thesis by simp
qed

lemma csd_sectors_v1:
  assumes "drop_bit 6 (csd ! 0) \<noteq> 1"
  shows "csd_sectors csd =
    (if csd_v1_shift csd < 9 then Inl Negative_shift else Inr (of_nat (csd_v1_sectors csd)))"
proof -
  let ?N = "ucast (csd ! 5 AND 15) + drop_bit 7 (ucast (csd ! 10 AND 128))
      + push_bit 1 (ucast (csd ! 9 AND 3)) + (2 :: dword)"
  let ?C = "ucast (drop_bit 6 (csd ! 8)) + push_bit 2 (ucast (csd ! 7))
      + push_bit 10 (ucast (csd ! 6 AND 3)) + (1 :: dword)"
  have "?N = of_nat (csd_v1_shift csd)"
    by (simp only: csd_v1_shift_def ucast_byte push_bit_of_nat drop_bit_of_nat_byte
        of_nat_add of_nat_numeral)
  then have "unat ?N = csd_v1_shift csd"
    using csd_v1_shift_le [of csd] by (simp only: unat_of_nat) simp
  then have n: "unat (ucast ?N :: byte) = csd_v1_shift csd"
    using csd_v1_shift_le [of csd] by (simp only: unsigned_ucast_eq) (simp add: take_bit_nat_eq_self)
  have "ucast (drop_bit 6 (csd ! 8)) = (of_nat (drop_bit 6 (unat (csd ! 8))) :: dword)"
    by (simp only: of_nat_unat flip: unat_drop_bit_eq)
  then have "?C = of_nat (drop_bit 6 (unat (csd ! 8)) + push_bit 2 (unat (csd ! 7))
      + push_bit 10 (unat (csd ! 6 AND 3)) + 1)"
    by (simp only: ucast_byte push_bit_of_nat of_nat_add of_nat_1)
  then have c: "push_bit (csd_v1_shift csd - 9) ?C = of_nat (csd_v1_sectors csd)"
    unfolding csd_v1_sectors_def by (simp only: push_bit_of_nat)
  have "csd_sectors csd =
      (if (ucast ?N :: byte) < 9 then Inl Negative_shift
       else Inr (push_bit (unat (ucast ?N :: byte) - 9) ?C))"
    using assms unfolding csd_sectors_def Let_def by (simp only: if_False)
  also have "\<dots> = (if csd_v1_shift csd < 9 then Inl Negative_shift else Inr (of_nat (csd_v1_sectors csd)))"
    unfolding word_less_nat_alt n c by simp
  finally show ?thesis .
qed

subsection \<open>Two cards\<close>

text \<open>An initialized SDv2 drive whose card no longer answers: every byte read is
  \<open>0xFF\<close>.\<close>

definition unplugged :: drv where
  "unplugged =
     \<lparr>Stat = 0, Timer1 = 0, Timer2 = 0, CardType = ucast CT_SD2,
      bus_in = sconst (0, 0xFF), bus_log = []\<rparr>"

text \<open>A card that is ready at once and answers a command with \<open>r\<close>: the two filler bytes
  of deselect and select, the ready byte, six bytes while the frame goes out, and the
  response, one tick later.\<close>

definition answer :: "byte \<Rightarrow> (nat \<times> byte) list" where
  "answer r = replicate 9 (0, 0xFF) @ [(1, r)]"

text \<open>An SDv1 card at power-up: it enters the idle state, rejects the interface
  condition command, and leaves the idle state at the second \<open>ACMD41\<close>.\<close>

definition sd1_card :: drv where
  "sd1_card =
     power_up ((replicate 10 (0, 0xFF) @ answer 1 @ answer 5 @ answer 1 @ answer 0
                @ answer 1 @ answer 0 @ answer 0) @- sconst (0, 0xFF))"

lemma unplugged_init:
  "map_option (\<lambda>(st, s'). (st, CardType s')) (disk_initialize 0 unplugged) = Some (0, 0)"
  by (simp add: run unplugged_def cong: let_weak_cong bind_weak_cong)

lemma sd1_card_init:
  "map_option (\<lambda>(st, s'). (st, CardType s')) (disk_initialize 0 sd1_card) = Some (0, 2)"
  by (simp add: run sd1_card_def power_up_def answer_def cong: let_weak_cong bind_weak_cong)


lemma unplugged_run:
  obtains s' where "disk_initialize 0 unplugged = Some (0, s')" and "CardType s' = 0"
  using unplugged_init by (cases "disk_initialize 0 unplugged") auto

lemma sd1_card_run:
  obtains s' where "disk_initialize 0 sd1_card = Some (0, s')" and "CardType s' = 2"
  using sd1_card_init by (cases "disk_initialize 0 sd1_card") auto

lemma disk_initialize_exit_cards:
  "Stat sd1_card AND STA_NODISK = 0
   \<and> CardType (snd (the (disk_initialize 0 sd1_card))) = 2
   \<and> fst (the (disk_initialize 0 sd1_card)) = Stat (snd (the (disk_initialize 0 sd1_card)))
   \<and> Stat (snd (the (disk_initialize 0 sd1_card))) AND STA_NOINIT = 0
   \<and> (\<exists>pre b. bus_log (snd (the (disk_initialize 0 sd1_card)))
         = pre @ [CS_HIGH, Xchg 0xFF b, Hook FCLK_FAST])
   \<and> Stat unplugged AND STA_NODISK = 0
   \<and> CardType (snd (the (disk_initialize 0 unplugged))) = 0
   \<and> Stat (snd (the (disk_initialize 0 unplugged))) AND STA_NOINIT = Stat unplugged AND STA_NOINIT
   \<and> (\<exists>pre b. bus_log (snd (the (disk_initialize 0 unplugged)))
         = pre @ [CS_HIGH, Xchg 0xFF b, Hook POWER_OFF])"
proof -
  have a: "Stat sd1_card AND STA_NODISK = 0"
    by (simp add: sd1_card_def power_up_def)
  obtain s1 where r1: "disk_initialize 0 sd1_card = Some (0, s1)" and c1: "CardType s1 = 2"
    by (rule sd1_card_run)
  have b: "Stat unplugged AND STA_NODISK = 0" and su: "Stat unplugged = 0"
    by (simp_all add: unplugged_def)
  obtain s2 where r2: "disk_initialize 0 unplugged = Some (0, s2)" and c2: "CardType s2 = 0"
    by (rule unplugged_run)
  from disk_initialize_exit [OF a r1] disk_initialize_exit [OF b r2] a b r1 r2 c1 c2 su
  show ?thesis by simp
qed

text \<open>
  C6. At the end of a \<open>disk_initialize\<close> run that reaches the probe sequence with no card
  type detected, the not-initialized flag is to be set, so that the drive is closed to
  every later operation. The failure path calls only \<open>power_off()\<close>, which is empty, where
  the disabled power-off control code pairs the hook with \<open>Stat |= STA_NOINIT\<close>. So on an
  initialized drive whose card has stopped answering, the run fails, stores the card
  type 0 and returns 0 with the flag clear, and a \<open>disk_read\<close> that follows is not refused
  as not ready: it goes to the bus and returns an error.
\<close>

theorem failed_reinit_not_gated:
  "Stat unplugged AND STA_NOINIT = 0
   \<and> Stat unplugged AND STA_NODISK = 0
   \<and> map_option (\<lambda>(st, s'). (st, Stat s' AND STA_NOINIT, CardType s')) (disk_initialize 0 unplugged)
       = Some (0, 0, 0)
   \<and> Option.bind (disk_initialize 0 unplugged)
         (\<lambda>(st, s'). map_option (\<lambda>((res, data), s''). res) (disk_read 0 0 1 s'))
       = Some RES_ERROR"
  by (simp add: run unplugged_def cong: let_weak_cong bind_weak_cong)

theorem failed_reinit_not_gated_witness:
  "\<exists>st s'. disk_initialize 0 unplugged = Some (st, s')
      \<and> st = 0 \<and> Stat s' AND STA_NOINIT = 0 \<and> CardType s' = 0
      \<and> (\<exists>data s''. disk_read 0 0 1 s' = Some ((RES_ERROR, data), s''))"
  using failed_reinit_not_gated
  by (cases "disk_initialize 0 unplugged") (auto split: prod.splits)

theorem CardType_written_witness:
  "(\<exists>st. disk_initialize 1 unplugged = Some (st, unplugged))
   \<and> (\<exists>ty s1. card_probe (probe_start sd1_card) = Some (ty, s1)
         \<and> CardType (snd (the (disk_initialize 0 sd1_card))) = ucast ty)
   \<and> CardType (snd (the (disk_read 0 0 1 sd1_card))) = CardType sd1_card
   \<and> CardType (snd (the (disk_write 0 (\<lambda>i. 0) 0 1 sd1_card))) = CardType sd1_card
   \<and> CardType (snd (the (disk_ioctl 0 MMC_GET_TYPE sd1_card))) = CardType sd1_card
   \<and> CardType (disk_timerproc unplugged) = CardType unplugged"
proof -
  have a: "Stat sd1_card AND STA_NODISK = 0" and n: "Stat sd1_card AND STA_NOINIT \<noteq> 0"
    by (simp_all add: sd1_card_def power_up_def)
  obtain s1 where r1: "disk_initialize 0 sd1_card = Some (0, s1)"
    by (rule sd1_card_run)
  have r2: "disk_read 0 0 1 sd1_card = Some ((RES_NOTRDY, []), sd1_card)"
    and r3: "disk_write 0 (\<lambda>i. 0) 0 1 sd1_card = Some (RES_NOTRDY, sd1_card)"
    and r4: "disk_ioctl 0 MMC_GET_TYPE sd1_card = Some (Inr (RES_NOTRDY, No_data), sd1_card)"
    using n by (simp_all add: disk_read_def disk_write_def disk_ioctl_def)
  from CardType_written [of 1 unplugged]
    CardType_written [of 0 sd1_card 0 s1 0 1 "(RES_NOTRDY, [])" "\<lambda>i. 0" RES_NOTRDY MMC_GET_TYPE
      "Inr (RES_NOTRDY, No_data)"]
    CardType_written [of 0 unplugged] a r1 r2 r3 r4
  show ?thesis by simp
qed

theorem failed_init_writes_CardType_counterexample:
  "CardType unplugged = 4
   \<and> map_option (\<lambda>(st, s'). CardType s') (disk_initialize 0 unplugged) = Some 0"
  using unplugged_init by (cases "disk_initialize 0 unplugged") (auto simp: unplugged_def)

text \<open>
  C7. For a CSD of structure version 1 the sector count that \<open>GET_SECTOR_COUNT\<close> stores is
  \<open>(C_SIZE + 1) << 10\<close> reduced modulo \<open>2 ^ 32\<close>, the width it is computed in. For any other
  version, with \<open>n = READ_BL_LEN + C_SIZE_MULT + 2\<close>, it is \<open>(C_SIZE + 1) << (n - 9)\<close>
  exactly when \<open>n\<close> is at least 9; for a smaller \<open>n\<close> the shift amount is negative and the
  result is not defined. \<open>disk_ioctl\<close> stores this value, decoded from the 16 bytes that
  the CSD read returned, with \<open>RES_OK\<close>.
\<close>

theorem sector_count_decode:
  "(drop_bit 6 (csd ! 0) = 1 \<longrightarrow>
      (\<exists>w. csd_sectors csd = Inr w \<and> unat w = csd_v2_sectors csd mod 2 ^ 32))
   \<and> (drop_bit 6 (csd ! 0) \<noteq> 1 \<and> 9 \<le> csd_v1_shift csd \<longrightarrow>
      (\<exists>w. csd_sectors csd = Inr w \<and> unat w = csd_v1_sectors csd))
   \<and> (drop_bit 6 (csd ! 0) \<noteq> 1 \<and> csd_v1_shift csd < 9 \<longrightarrow>
      csd_sectors csd = Inl Negative_shift)
   \<and> (Stat s AND STA_NOINIT = 0 \<and> read_register CMD9 16 s = Some (Some csd, s1) \<longrightarrow>
      disk_ioctl 0 GET_SECTOR_COUNT s
        = Some (case csd_sectors csd of
                  Inl f \<Rightarrow> (Inl f, s1)
                | Inr w \<Rightarrow> (Inr (RES_OK, Lba w), mmc_deselect s1)))"
proof (intro conjI impI)
  assume "drop_bit 6 (csd ! 0) = 1"
  then show "\<exists>w. csd_sectors csd = Inr w \<and> unat w = csd_v2_sectors csd mod 2 ^ 32"
    by (rule csd_sectors_v2)
next
  assume "drop_bit 6 (csd ! 0) \<noteq> 1 \<and> 9 \<le> csd_v1_shift csd"
  then have "csd_sectors csd = Inr (of_nat (csd_v1_sectors csd))"
    by (simp add: csd_sectors_v1)
  moreover have "unat (of_nat (csd_v1_sectors csd) :: dword) = csd_v1_sectors csd"
    using csd_v1_sectors_less [of csd] by (simp add: unat_of_nat)
  ultimately show "\<exists>w. csd_sectors csd = Inr w \<and> unat w = csd_v1_sectors csd"
    by blast
next
  assume "drop_bit 6 (csd ! 0) \<noteq> 1 \<and> csd_v1_shift csd < 9"
  then show "csd_sectors csd = Inl Negative_shift"
    by (simp add: csd_sectors_v1)
next
  assume "Stat s AND STA_NOINIT = 0 \<and> read_register CMD9 16 s = Some (Some csd, s1)"
  then show "disk_ioctl 0 GET_SECTOR_COUNT s
      = Some (case csd_sectors csd of
                Inl f \<Rightarrow> (Inl f, s1)
              | Inr w \<Rightarrow> (Inr (RES_OK, Lba w), mmc_deselect s1))"
    by (simp add: disk_ioctl_def ioctl_switch_def split: sum.splits)
qed

text \<open>The CSD of an 8 GB SDHC card, of a 1 GB SDv1 card, of a version 0 card with a
  block length field of 0, and the version 1 CSD with the largest \<open>C_SIZE\<close>.\<close>

definition csd_sdhc :: "byte list" where
  "csd_sdhc = [0x40, 0x0E, 0x00, 0x32, 0x5B, 0x59, 0x00, 0x00, 0x3B, 0x37, 0x7F, 0x80, 0x0A, 0x40, 0x00, 0x01]"

definition csd_sd1 :: "byte list" where
  "csd_sd1 = [0x00, 0x26, 0x00, 0x32, 0x5F, 0x59, 0x83, 0xC8, 0xAD, 0xDB, 0xCF, 0xFF, 0xD2, 0x40, 0x40, 0xA5]"

definition csd_short :: "byte list" where
  "csd_short = [0x00, 0x26, 0x00, 0x32, 0x5F, 0x50, 0x83, 0xC8, 0xAD, 0xD8, 0x4F, 0xFF, 0xD2, 0x40, 0x40, 0xA5]"

definition csd_full :: "byte list" where
  "csd_full = [0x40, 0x0E, 0x00, 0x32, 0x5B, 0x59, 0x00, 0x3F, 0xFF, 0xFF, 0x7F, 0x80, 0x0A, 0x40, 0x00, 0x01]"

text \<open>An initialized SDHC drive whose card answers the CSD read with \<open>csd_sdhc\<close>.\<close>

definition sdhc_csd_read :: drv where
  "sdhc_csd_read =
     \<lparr>Stat = 0, Timer1 = 0, Timer2 = 0, CardType = ucast (CT_SD2 OR CT_BLOCK),
      bus_in = (answer 0 @ [(0, 0xFE)] @ map (Pair 0) csd_sdhc @ [(0, 0x12), (0, 0x34)])
               @- sconst (0, 0xFF),
      bus_log = []\<rparr>"



lemma sdhc_csd_read_register:
  "map_option fst (read_register CMD9 16 sdhc_csd_read) = Some (Some csd_sdhc)"
  by (simp add: run sdhc_csd_read_def answer_def csd_sdhc_def
      cong: let_weak_cong bind_weak_cong)

theorem sector_count_decode_witness:
  "(\<exists>w. csd_sectors csd_sdhc = Inr w \<and> unat w = csd_v2_sectors csd_sdhc mod 2 ^ 32)
   \<and> csd_v2_sectors csd_sdhc = 15523840
   \<and> (\<exists>w. csd_sectors csd_sd1 = Inr w \<and> unat w = csd_v1_sectors csd_sd1)
   \<and> csd_v1_sectors csd_sd1 = 1984000
   \<and> csd_sectors csd_short = Inl Negative_shift
   \<and> map_option fst (disk_ioctl 0 GET_SECTOR_COUNT sdhc_csd_read)
       = Some (Inr (RES_OK, Lba 15523840))"
proof -
  have v2: "drop_bit 6 (csd_sdhc ! 0) = 1" and n2: "csd_v2_sectors csd_sdhc = 15523840"
    by (simp_all add: csd_sdhc_def csd_v2_sectors_def)
  have v1: "drop_bit 6 (csd_sd1 ! 0) \<noteq> 1 \<and> 9 \<le> csd_v1_shift csd_sd1"
    and n1: "csd_v1_sectors csd_sd1 = 1984000"
    by (simp_all add: csd_sd1_def csd_v1_sectors_def csd_v1_shift_def)
  have v0: "drop_bit 6 (csd_short ! 0) \<noteq> 1 \<and> csd_v1_shift csd_short < 9"
    by (simp add: csd_short_def csd_v1_shift_def)
  obtain s1 where r: "read_register CMD9 16 sdhc_csd_read = Some (Some csd_sdhc, s1)"
    using sdhc_csd_read_register by (cases "read_register CMD9 16 sdhc_csd_read") auto
  have i: "Stat sdhc_csd_read AND STA_NOINIT = 0"
    by (simp add: sdhc_csd_read_def)
  have w: "csd_sectors csd_sdhc = Inr 15523840"
    by (simp add: csd_sectors_def csd_sdhc_def)
  from sector_count_decode [of csd_sdhc sdhc_csd_read s1] sector_count_decode [of csd_sd1]
    sector_count_decode [of csd_short] v2 n2 v1 n1 v0 r i w
  show ?thesis by simp
qed

theorem sector_count_wraps_counterexample:
  "drop_bit 6 (csd_full ! 0) = 1
   \<and> csd_sectors csd_full = Inr 0
   \<and> csd_v2_sectors csd_full = 4294967296"
  by (simp add: csd_full_def csd_sectors_def csd_v2_sectors_def)

subsection \<open>Application commands\<close>

lemma send_cmd_plain: "cmd AND 0x80 = 0 \<Longrightarrow> send_cmd cmd arg s = send_frame cmd arg s"
  by (subst send_cmd.simps) simp

text \<open>
  C8. For a command index that carries the application-command flag, \<open>send_cmd\<close> first
  sends the escape command, index 55 with argument 0. If that does not return, neither
  does \<open>send_cmd\<close>. If its response is greater than 1, \<open>send_cmd\<close> returns that response in
  the state the escape command left, so nothing of the underlying command is
  transmitted. Otherwise it goes on to send the underlying command, the index without
  the flag.
\<close>

theorem send_cmd_app_prefix:
  "cmd AND 0x80 \<noteq> 0 \<Longrightarrow>
     send_cmd CMD55 0 s = send_frame CMD55 0 s
     \<and> send_cmd cmd arg s =
         (case send_frame CMD55 0 s of
            None \<Rightarrow> None
          | Some (res, s1) \<Rightarrow>
              if 1 < res then Some (res, s1) else send_frame (cmd AND 0x7F) arg s1)"
  by (subst (2) send_cmd.simps) (simp add: send_cmd_plain)

theorem send_cmd_app_prefix_witness:
  "map_option (\<lambda>(res, s'). (res, bus_log s'))
     (send_cmd ACMD41 0x40000000 (power_up (answer 5 @- sconst (0, 0xFF))))
     = Some (5, [CS_HIGH, Xchg 0xFF 0xFF, CS_LOW, Xchg 0xFF 0xFF, Xchg 0xFF 0xFF,
                 Xchg 0x77 0xFF, Xchg 0 0xFF, Xchg 0 0xFF, Xchg 0 0xFF, Xchg 0 0xFF,
                 Xchg 0x01 0xFF, Xchg 0xFF 5])
   \<and> map_option (\<lambda>(res, s'). (res, bus_log s'))
     (send_cmd ACMD41 0x40000000 (power_up ((answer 1 @ answer 0) @- sconst (0, 0xFF))))
     = Some (0, [CS_HIGH, Xchg 0xFF 0xFF, CS_LOW, Xchg 0xFF 0xFF, Xchg 0xFF 0xFF,
                 Xchg 0x77 0xFF, Xchg 0 0xFF, Xchg 0 0xFF, Xchg 0 0xFF, Xchg 0 0xFF,
                 Xchg 0x01 0xFF, Xchg 0xFF 1,
                 CS_HIGH, Xchg 0xFF 0xFF, CS_LOW, Xchg 0xFF 0xFF, Xchg 0xFF 0xFF,
                 Xchg 0x69 0xFF, Xchg 0x40 0xFF, Xchg 0 0xFF, Xchg 0 0xFF, Xchg 0 0xFF,
                 Xchg 0x01 0xFF, Xchg 0xFF 0])"
  using send_cmd_app_prefix [of ACMD41 "power_up (answer 5 @- sconst (0, 0xFF))" "0x40000000"]
    send_cmd_app_prefix [of ACMD41 "power_up ((answer 1 @ answer 0) @- sconst (0, 0xFF))" "0x40000000"]
  by (simp add: run power_up_def answer_def cong: let_weak_cong bind_weak_cong)

subsection \<open>Receiving a data block\<close>

lemma token_loop_polls:
  assumes "\<forall>e\<in>set (stake k (bus_in s)). snd e = 0xFF"
    and "elapsed (stake k (bus_in s)) < Timer1 s"
    and "snd (bus_in s !! k) \<noteq> 0xFF \<or> Timer1 s \<le> elapsed (stake (Suc k) (bus_in s))"
  shows "token_loop s = Some (snd (bus_in s !! k), sends (replicate (Suc k) 0xFF) s)"
  using assms
proof (induction k arbitrary: s)
  case 0
  then show ?case
    by (subst token_loop.simps) (auto simp: split_beta)
next
  case (Suc k)
  let ?s1 = "snd (xchg_spi 0xFF s)"
  have "token_loop ?s1 = Some (snd (bus_in ?s1 !! k), sends (replicate (Suc k) 0xFF) ?s1)"
    using Suc.prems by (intro Suc.IH) auto
  moreover have "snd (shd (bus_in s)) = 0xFF" "Timer1 ?s1 \<noteq> 0"
    using Suc.prems by auto
  ultimately show ?case
    by (subst token_loop.simps) (simp add: split_beta)
qed

text \<open>
  C4. \<open>rcvr_datablock\<close> arms \<open>Timer1\<close> to 100 and exchanges filler bytes while the card
  returns \<open>0xFF\<close> and the timer has not reached zero. With \<open>k\<close> such bytes, fewer than 100
  ticks having elapsed during them, the loop ends at the next byte if it is not \<open>0xFF\<close> or
  if the 100th tick falls into its exchange. If that byte is the token \<open>0xFE\<close>, the
  following \<open>byte_count\<close> bytes are stored (\<open>2 ^ 32\<close> bytes for a count of 0), exactly two
  more bytes are exchanged and the result is success. If it is any other byte, the
  result is failure with no further exchange, whether the timer has expired or not.
\<close>

theorem rcvr_datablock_token:
  assumes "\<forall>e\<in>set (stake k (bus_in s)). snd e = 0xFF"
    and "elapsed (stake k (bus_in s)) < 100"
    and "snd (bus_in s !! k) \<noteq> 0xFF \<or> 100 \<le> elapsed (stake (Suc k) (bus_in s))"
  shows "rcvr_datablock btr s =
     (if snd (bus_in s !! k) = 0xFE
      then Some (Some (map snd (stake (burst_len btr) (sdrop (Suc k) (bus_in s)))),
                 sends (replicate (Suc k + burst_len btr + 2) 0xFF) (s\<lparr>Timer1 := 100\<rparr>))
      else Some (None, sends (replicate (Suc k) 0xFF) (s\<lparr>Timer1 := 100\<rparr>)))"
proof -
  have "token_loop (s\<lparr>Timer1 := 100\<rparr>)
      = Some (snd (bus_in (s\<lparr>Timer1 := 100\<rparr>) !! k), sends (replicate (Suc k) 0xFF) (s\<lparr>Timer1 := 100\<rparr>))"
    using assms by (intro token_loop_polls) simp_all
  moreover have "replicate (Suc k + burst_len btr + 2) (0xFF :: byte)
      = replicate (Suc k) 0xFF @ replicate (burst_len btr) 0xFF @ [0xFF, 0xFF]"
    unfolding replicate_add by (simp only: append_assoc) (simp add: numeral_2_eq_2)
  ultimately show ?thesis
    by (simp add: rcvr_datablock_def rcvr_spi_multi_eq Let_def del: replicate.simps)
qed

theorem rcvr_datablock_token_witness:
  "rcvr_datablock 4
     (power_up ([(1, 0xFF), (1, 0xFF), (1, 0xFE), (0, 0xDE), (0, 0xAD), (0, 0xBE), (0, 0xEF),
                 (0, 0x12), (0, 0x34)] @- sconst (0, 0xFF)))
   = Some (Some [0xDE, 0xAD, 0xBE, 0xEF],
       \<lparr>Stat = STA_NOINIT, Timer1 = 97, Timer2 = 0, CardType = 0, bus_in = sconst (0, 0xFF),
        bus_log = [Xchg 0xFF 0xFF, Xchg 0xFF 0xFF, Xchg 0xFF 0xFE, Xchg 0xFF 0xDE,
                   Xchg 0xFF 0xAD, Xchg 0xFF 0xBE, Xchg 0xFF 0xEF, Xchg 0xFF 0x12,
                   Xchg 0xFF 0x34]\<rparr>)"
  using rcvr_datablock_token [of "Suc (Suc 0)"
      "power_up ([(1, 0xFF), (1, 0xFF), (1, 0xFE), (0, 0xDE), (0, 0xAD), (0, 0xBE), (0, 0xEF),
                  (0, 0x12), (0, 0x34)] @- sconst (0, 0xFF))" 4]
  by (simp add: power_up_def burst_len_def replicate_numeral stake_numeral xchg_spi_run)

theorem rcvr_datablock_other_token_counterexample:
  "rcvr_datablock 512 (power_up (sconst (0, 0x00)))
   = Some (None,
       \<lparr>Stat = STA_NOINIT, Timer1 = 100, Timer2 = 0, CardType = 0, bus_in = sconst (0, 0x00),
        bus_log = [Xchg 0xFF 0x00]\<rparr>)"
  by (simp add: run power_up_def cong: let_weak_cong bind_weak_cong)

subsection \<open>Writing several blocks\<close>

text \<open>The bytes of a data packet on the wire: the token, the 512 bytes of the block,
  two bytes in place of the CRC, and the filler byte during which the card returns its
  data response.\<close>

definition data_frame :: "(nat \<Rightarrow> byte) \<Rightarrow> byte \<Rightarrow> byte list" where
  "data_frame buff token = token # map buff [0..<512] @ [0xFF, 0xFF, 0xFF]"

lemma length_data_frame [simp]: "length (data_frame buff token) = 516"
  by (simp add: data_frame_def)

lemma shd_sdrop_snth: "shd (sdrop n s) = s !! n"
  by (induction n arbitrary: s) simp_all

lemma xmit_datablock_eq:
  "xmit_datablock buff token s =
     (case wait_ready s of
        None \<Rightarrow> None
      | Some (rdy, s1) \<Rightarrow>
          if \<not> rdy then Some (False, s1)
          else if token = 0xFD then Some (True, sends [0xFD] s1)
          else Some (snd (bus_in s1 !! 515) AND 0x1F = 0x05, sends (data_frame buff token) s1))"
proof -
  have "shd (sdrop 514 (stl (bus_in s1))) = bus_in s1 !! 515" for s1 :: drv
    using shd_sdrop_snth [of 515 "bus_in s1"] by (simp add: numeral_eq_Suc)
  then show ?thesis
    by (auto simp: xmit_datablock_def xmit_spi_multi_eq data_frame_def Let_def split_beta
        split: option.splits)
qed

text \<open>The block loop as the specification describes it: one packet with the token
  \<open>0xFC\<close> for each of \<open>n\<close> blocks, each after the card has become ready, and stopping at the
  first block for which the card does not become ready or whose data response is not
  ``accepted''. The result tells whether all \<open>n\<close> blocks were accepted.\<close>

fun write_run :: "(nat \<Rightarrow> byte) \<Rightarrow> nat \<Rightarrow> drv \<Rightarrow> (bool \<times> drv) option" where
  "write_run buff 0 s = Some (True, s)"
| "write_run buff (Suc n) s =
     (case wait_ready s of
        None \<Rightarrow> None
      | Some (rdy, s1) \<Rightarrow>
          if \<not> rdy then Some (False, s1)
          else if snd (bus_in s1 !! 515) AND 0x1F \<noteq> 0x05
          then Some (False, sends (data_frame buff 0xFC) s1)
          else write_run (\<lambda>i. buff (i + 512)) n (sends (data_frame buff 0xFC) s1))"

lemma write_blocks_run:
  "count \<noteq> 0 \<Longrightarrow>
     map_option (\<lambda>(c, s'). (c = 0, s')) (write_blocks buff count s) = write_run buff (unat count) s"
proof (induction "unat count" arbitrary: count buff s)
  case 0
  then show ?case by (simp add: unat_eq_zero)
next
  case (Suc n)
  have n: "unat (count - 1) = n"
    using Suc.hyps(2) Suc.prems by (simp add: unat_minus_one)
  have step: "count - 1 \<noteq> 0 \<Longrightarrow>
      map_option (\<lambda>(c, s'). (c = 0, s')) (write_blocks buff' (count - 1) s')
        = write_run buff' n s'" for buff' s'
    using Suc.hyps(1) [of "count - 1" buff' s'] n by simp
  have last: "count - 1 = 0 \<Longrightarrow> n = 0"
    using n by simp
  show ?case
    using Suc.prems step last
    by (subst write_blocks.simps)
      (auto simp: Suc.hyps(2) [symmetric] xmit_datablock_eq split: option.splits)
qed

text \<open>
  C2. A multi-block \<open>disk_write\<close> whose command 25 is accepted runs the block loop: one
  packet with the token \<open>0xFC\<close> per block, stopping at the first block for which the card
  does not become ready within 500 ticks or whose data response is not ``accepted''.
  Whatever the loop did, the stop token is then attempted exactly once: the driver waits
  for the card to become ready, and only if it does within 500 ticks is the byte \<open>0xFD\<close>
  transmitted. The card is deselected. The result is \<open>RES_OK\<close> if and only if all blocks
  were accepted and the card became ready for the stop token, and \<open>RES_ERROR\<close> otherwise.
\<close>

theorem disk_write_multi:
  assumes "count \<noteq> 0" and "count \<noteq> 1"
    and "Stat s AND STA_NOINIT = 0" and "Stat s AND STA_PROTECT = 0"
    and "pre_erase count s = Some s1"
    and "send_cmd CMD25 (card_address s sector) s1 = Some (0, s2)"
  shows "disk_write 0 buff sector count s =
     (case write_run buff (unat count) s2 of
        None \<Rightarrow> None
      | Some (ok, s3) \<Rightarrow>
          (case wait_ready s3 of
             None \<Rightarrow> None
           | Some (rdy, s4) \<Rightarrow>
               Some (if ok \<and> rdy then RES_OK else RES_ERROR,
                     mmc_deselect (if rdy then sends [0xFD] s4 else s4))))"
proof -
  have "map_option (\<lambda>(c, s'). (c = 0, s')) (write_multi buff (card_address s sector) count s) =
     (case write_run buff (unat count) s2 of
        None \<Rightarrow> None
      | Some (ok, s3) \<Rightarrow>
          (case wait_ready s3 of
             None \<Rightarrow> None
           | Some (rdy, s4) \<Rightarrow>
               Some (ok \<and> rdy, if rdy then sends [0xFD] s4 else s4)))"
    using write_blocks_run [OF assms(1), of buff s2, symmetric] assms(5,6)
    by (cases "write_blocks buff count s2")
      (auto simp: write_multi_def xmit_datablock_eq split: option.splits)
  then show ?thesis
    using assms(1-4)
    by (cases "write_multi buff (card_address s sector) count s")
      (auto simp: disk_write_def split: option.splits if_splits)
qed


text \<open>An initialized MMC drive whose card is ready at once, accepts the next command and
  then returns the bytes of \<open>rest\<close>.\<close>

definition mmc_writing :: "(nat \<times> byte) stream \<Rightarrow> drv" where
  "mmc_writing rest =
     \<lparr>Stat = 0, Timer1 = 0, Timer2 = 0, CardType = ucast CT_MMC,
      bus_in = answer 0 @- rest, bus_log = []\<rparr>"

lemma sends_sconst:
  "bus_in s = sconst (0, b) \<Longrightarrow> sends ds s = s\<lparr>bus_log := bus_log s @ map (\<lambda>d. Xchg d b) ds\<rparr>"
  by (induction ds arbitrary: s) (simp_all add: xchg_spi_eq)

lemma snth_sconst: "sconst x !! n = x"
  by (induction n) simp_all

theorem disk_write_multi_witness:
  "disk_write 0 (\<lambda>i. 0) 0 2 (mmc_writing (sconst (0, 0xFF)))
   = Some (RES_ERROR,
       \<lparr>Stat = 0, Timer1 = 0, Timer2 = 500, CardType = 1, bus_in = sconst (0, 0xFF),
        bus_log = [CS_HIGH, Xchg 0xFF 0xFF, CS_LOW, Xchg 0xFF 0xFF, Xchg 0xFF 0xFF,
                   Xchg 0x59 0xFF, Xchg 0 0xFF, Xchg 0 0xFF, Xchg 0 0xFF, Xchg 0 0xFF,
                   Xchg 0x01 0xFF, Xchg 0xFF 0, Xchg 0xFF 0xFF]
                  @ map (\<lambda>d. Xchg d 0xFF) (data_frame (\<lambda>i. 0) 0xFC)
                  @ [Xchg 0xFF 0xFF, Xchg 0xFD 0xFF, CS_HIGH, Xchg 0xFF 0xFF]\<rparr>)"
proof -
  let ?s = "mmc_writing (sconst (0, 0xFF))"
  let ?s2 = "\<lparr>Stat = 0, Timer1 = 0, Timer2 = 499, CardType = 1, bus_in = sconst (0, 0xFF),
        bus_log = [CS_HIGH, Xchg 0xFF 0xFF, CS_LOW, Xchg 0xFF 0xFF, Xchg 0xFF 0xFF,
                   Xchg 0x59 0xFF, Xchg 0 0xFF, Xchg 0 0xFF, Xchg 0 0xFF, Xchg 0 0xFF,
                   Xchg 0x01 0xFF, Xchg 0xFF 0]\<rparr>"
  have p: "pre_erase 2 ?s = Some ?s"
    by (simp add: pre_erase_def mmc_writing_def)
  have c: "send_cmd CMD25 (card_address ?s 0) ?s = Some (0, ?s2)"
    by (simp add: run mmc_writing_def answer_def cong: let_weak_cong bind_weak_cong)
  have n: "write_run buff 2 s = write_run buff (Suc (Suc 0)) s" for buff s
    by (simp add: numeral_2_eq_2)
  have w: "wait_ready \<lparr>Stat = 0, Timer1 = 0, Timer2 = t, CardType = 1, bus_in = sconst (0, 0xFF),
        bus_log = lg\<rparr> = Some (True, \<lparr>Stat = 0, Timer1 = 0, Timer2 = 500, CardType = 1,
        bus_in = sconst (0, 0xFF), bus_log = lg @ [Xchg 0xFF 0xFF]\<rparr>)" for t lg
    by (simp add: run cong: let_weak_cong bind_weak_cong)
  from disk_write_multi [OF _ _ _ _ p c, of "\<lambda>i. 0"] show ?thesis
    by (simp add: n w sends_sconst snth_sconst mmc_deselect_def emit_def xchg_spi_run
        mmc_writing_def answer_def del: sends_simps)
qed

theorem stop_token_not_sent_counterexample:
  "map_option fst (send_cmd CMD25 0 (mmc_writing (sconst (500, 0x00)))) = Some 0
   \<and> disk_write 0 (\<lambda>i. 0) 0 2 (mmc_writing (sconst (500, 0x00)))
     = Some (RES_ERROR,
         \<lparr>Stat = 0, Timer1 = 0, Timer2 = 0, CardType = 1, bus_in = sconst (500, 0x00),
          bus_log = [CS_HIGH, Xchg 0xFF 0xFF, CS_LOW, Xchg 0xFF 0xFF, Xchg 0xFF 0xFF,
                     Xchg 0x59 0xFF, Xchg 0 0xFF, Xchg 0 0xFF, Xchg 0 0xFF, Xchg 0 0xFF,
                     Xchg 0x01 0xFF, Xchg 0xFF 0,
                     Xchg 0xFF 0, Xchg 0xFF 0, CS_HIGH, Xchg 0xFF 0]\<rparr>)"
  by (simp add: run mmc_writing_def answer_def cong: let_weak_cong bind_weak_cong)

end
